theory Spec2Isabelle
  imports Complex_Main "HOL-Library.Log_Nat"
begin

section \<open>The billing and inventory settlement handlers of invoice-flow\<close>

text \<open>
  The theory embeds the route handlers of the bills API (\<^verbatim>\<open>POST /api/bills\<close>,
  \<^verbatim>\<open>PUT\<close>, \<^verbatim>\<open>PATCH\<close> and \<^verbatim>\<open>DELETE /api/bills/[id]\<close>) and the request
  schema \<^verbatim>\<open>extendedBillSchema\<close> they validate with.

  Conventions of the embedding:
  \<^item> a JavaScript number is a finite double, held as the rational it denotes
    (\<open>rat\<close>). A comparison of doubles is the comparison of these rationals. An
    arithmetic operation returns the exact result rounded to a double: the rounding is
    the parameter \<open>fl\<close> of the handlers, and \<open>binary64\<close> below is the rounding of
    IEEE 754 (to nearest, ties to even). A result beyond the range of the doubles
    (\<^verbatim>\<open>Infinity\<close>) is outside the model;
  \<^item> a quantity column gives back the double that was written to it
    (\<^verbatim>\<open>parseFloat(x.toString())\<close> is \<^verbatim>\<open>x\<close>), and the rows of the model hold the number
    \<^verbatim>\<open>parseFloat\<close> reads;
  \<^item> a table is the list of its rows; \<^verbatim>\<open>select ... where ... limit 1\<close> is the first
    row that satisfies the condition, \<^verbatim>\<open>update ... where\<close> rewrites every row that
    satisfies it, \<^verbatim>\<open>delete ... where\<close> removes every such row;
  \<^item> a handler is a function from the database to its response, the database it
    leaves behind and the list of writes it issued, in order;
  \<^item> the requests of one handler run alone: the handlers open no transaction and
    the model interleaves nothing;
  \<^item> the database accepts every write (no constraint of the schema is modelled), so
    the only exceptions are the \<^verbatim>\<open>ZodError\<close> of the schema, the \<^verbatim>\<open>TypeError\<close> of
    \<^verbatim>\<open>PUT\<close> on a \<^verbatim>\<open>null\<close> tax rate, and the error of a write that is handed
    \<^verbatim>\<open>new Date(s)\<close> for a string \<open>s\<close> that is no date (\<^verbatim>\<open>POST\<close> and \<^verbatim>\<open>PUT\<close>): which
    strings the engine parses as dates is the parameter \<open>validDate\<close>;
  \<^item> the session is the caller's user id, or \<open>None\<close> when there is none;
  \<^item> every \<^verbatim>\<open>new Date()\<close> of one request is the same instant \<open>now\<close>.
  The two \<^verbatim>\<open>GET\<close> handlers write nothing and are left out.
\<close>

subsection \<open>Rows and tables\<close>

text \<open>
  The schema file is not part of the sources. The columns below are the ones the
  handlers read or write; the identifier and the timestamps a table fills in by
  default are passed in (\<open>newBillId\<close>) or left out.
\<close>

record inventory_row =
  inv_id :: string
  inv_quantity :: rat
  inv_availableQuantity :: rat
  inv_updatedAt :: nat

record billItems_row =
  bi_billId :: string
  bi_inventoryId :: string
  bi_quantity :: rat
  bi_sellingPrice :: rat
  bi_total :: rat

record billExtraCharges_row =
  ec_billId :: string
  ec_name :: string
  ec_amount :: rat

record bills_row =
  b_id :: string
  b_userId :: string
  b_clientId :: string
  b_billNumber :: string
  b_invoiceNumber :: string
  b_billDate :: string
  b_subtotal :: rat
  b_taxRate :: rat
  b_tax :: rat
  b_extraChargesTotal :: rat
  b_total :: rat
  b_status :: string
  b_notes :: "string option"
  b_updatedAt :: nat

text \<open>The object given to \<^verbatim>\<open>db.update(bills).set(...)\<close>: a column is written when present.\<close>

record bills_set =
  set_id :: "string option"
  set_userId :: "string option"
  set_clientId :: "string option"
  set_billNumber :: "string option"
  set_invoiceNumber :: "string option"
  set_billDate :: "string option"
  set_subtotal :: "rat option"
  set_taxRate :: "rat option"
  set_tax :: "rat option"
  set_extraChargesTotal :: "rat option"
  set_total :: "rat option"
  set_status :: "string option"
  set_notes :: "string option option"
  set_updatedAt :: nat

record db =
  bills :: "bills_row list"
  billItems :: "billItems_row list"
  billExtraCharges :: "billExtraCharges_row list"
  inventory :: "inventory_row list"

subsection \<open>Writes\<close>

datatype db_write =
    InsertBill bills_row
  | InsertBillItems "billItems_row list"
  | InsertBillExtraCharges "billExtraCharges_row list"
  | UpdateInventory string rat nat
  | UpdateBill string string bills_set
  | DeleteBillItems string
  | DeleteBillExtraCharges string
  | DeleteBill string string

text \<open>
  The column type of the currency fields is declared in the schema, which is not part
  of the sources. The handlers hand a currency column the string \<^verbatim>\<open>x.toString()\<close> of a
  double \<open>x\<close>: what the column then holds is \<open>money x\<close>, a parameter of the model (the
  identity when the column keeps every digit, since the string of a double reads back
  as that double).
  Modelled from the spec: the quantity columns (\<open>quantity\<close>, \<open>availableQuantity\<close>)
  and the tax rate keep the value they are handed.
\<close>

definition store_bill :: "(rat \<Rightarrow> rat) \<Rightarrow> bills_row \<Rightarrow> bills_row" where
  "store_bill money b =
     b\<lparr>b_subtotal := money (b_subtotal b), b_tax := money (b_tax b),
       b_extraChargesTotal := money (b_extraChargesTotal b), b_total := money (b_total b)\<rparr>"

definition store_billItem :: "(rat \<Rightarrow> rat) \<Rightarrow> billItems_row \<Rightarrow> billItems_row" where
  "store_billItem money i =
     i\<lparr>bi_sellingPrice := money (bi_sellingPrice i), bi_total := money (bi_total i)\<rparr>"

definition store_extraCharge :: "(rat \<Rightarrow> rat) \<Rightarrow> billExtraCharges_row \<Rightarrow> billExtraCharges_row" where
  "store_extraCharge money c = c\<lparr>ec_amount := money (ec_amount c)\<rparr>"

definition set_column :: "'a option \<Rightarrow> 'a \<Rightarrow> 'a" where
  "set_column new old = (case new of None \<Rightarrow> old | Some v \<Rightarrow> v)"

definition apply_set :: "(rat \<Rightarrow> rat) \<Rightarrow> bills_set \<Rightarrow> bills_row \<Rightarrow> bills_row" where
  "apply_set money u b =
     \<lparr>b_id = set_column (set_id u) (b_id b),
      b_userId = set_column (set_userId u) (b_userId b),
      b_clientId = set_column (set_clientId u) (b_clientId b),
      b_billNumber = set_column (set_billNumber u) (b_billNumber b),
      b_invoiceNumber = set_column (set_invoiceNumber u) (b_invoiceNumber b),
      b_billDate = set_column (set_billDate u) (b_billDate b),
      b_subtotal = set_column (map_option money (set_subtotal u)) (b_subtotal b),
      b_taxRate = set_column (set_taxRate u) (b_taxRate b),
      b_tax = set_column (map_option money (set_tax u)) (b_tax b),
      b_extraChargesTotal =
        set_column (map_option money (set_extraChargesTotal u)) (b_extraChargesTotal b),
      b_total = set_column (map_option money (set_total u)) (b_total b),
      b_status = set_column (set_status u) (b_status b),
      b_notes = set_column (set_notes u) (b_notes b),
      b_updatedAt = set_updatedAt u\<rparr>"

fun apply_write :: "(rat \<Rightarrow> rat) \<Rightarrow> db_write \<Rightarrow> db \<Rightarrow> db" where
  "apply_write money (InsertBill b) d = d\<lparr>bills := bills d @ [store_bill money b]\<rparr>"
| "apply_write money (InsertBillItems rows) d =
     d\<lparr>billItems := billItems d @ map (store_billItem money) rows\<rparr>"
| "apply_write money (InsertBillExtraCharges rows) d =
     d\<lparr>billExtraCharges := billExtraCharges d @ map (store_extraCharge money) rows\<rparr>"
| "apply_write money (UpdateInventory i q t) d =
     d\<lparr>inventory :=
         map (\<lambda>r. if inv_id r = i then r\<lparr>inv_availableQuantity := q, inv_updatedAt := t\<rparr> else r)
           (inventory d)\<rparr>"
| "apply_write money (UpdateBill i u s) d =
     d\<lparr>bills :=
         map (\<lambda>b. if b_id b = i \<and> b_userId b = u then apply_set money s b else b) (bills d)\<rparr>"
| "apply_write money (DeleteBillItems i) d =
     d\<lparr>billItems := filter (\<lambda>r. bi_billId r \<noteq> i) (billItems d)\<rparr>"
| "apply_write money (DeleteBillExtraCharges i) d =
     d\<lparr>billExtraCharges := filter (\<lambda>r. ec_billId r \<noteq> i) (billExtraCharges d)\<rparr>"
| "apply_write money (DeleteBill i u) d =
     d\<lparr>bills := filter (\<lambda>b. \<not> (b_id b = i \<and> b_userId b = u)) (bills d)\<rparr>"

text \<open>A request in progress: the database and the writes issued so far.\<close>

type_synonym progress = "db \<times> db_write list"

definition exec :: "(rat \<Rightarrow> rat) \<Rightarrow> db_write \<Rightarrow> progress \<Rightarrow> progress" where
  "exec money w p = (apply_write money w (fst p), snd p @ [w])"

subsection \<open>The arithmetic of doubles\<close>

text \<open>
  IEEE 754 defines \<^verbatim>\<open>a + b\<close>, \<^verbatim>\<open>a - b\<close>, \<^verbatim>\<open>a * b\<close> and \<^verbatim>\<open>a / b\<close> on doubles as the
  exact result, rounded. \<open>binary64\<close> is that rounding on the rationals: to the nearest
  multiple of the unit in the last place of the operand's binade (53 significant
  bits, the exponent not below \<open>-1022\<close>), a tie going to the even multiple. It has no
  largest exponent: overflow is not modelled.
\<close>

definition round_even :: "rat \<Rightarrow> int" where
  "round_even x =
     (let f = \<lfloor>x\<rfloor>; d = x - of_int f
      in if d < 1 / 2 then f else if 1 / 2 < d then f + 1 else if even f then f else f + 1)"

text \<open>The exponent \<open>e\<close> with \<open>2 powi e \<le> a < 2 powi (e + 1)\<close>, for \<open>a > 0\<close>.\<close>

definition binade :: "rat \<Rightarrow> int" where
  "binade a =
     (if 1 \<le> a then bitlen \<lfloor>a\<rfloor> - 1
      else let k = bitlen \<lfloor>1 / a\<rfloor> - 1 in if a * 2 powi k = 1 then - k else - k - 1)"

definition binary64 :: "rat \<Rightarrow> rat" where
  "binary64 x =
     (if x = 0 then 0
      else let q = max (binade \<bar>x\<bar>) (- 1022) - 52
           in sgn x * of_int (round_even (\<bar>x\<bar> / 2 powi q)) * 2 powi q)"

subsection \<open>The request schema\<close>

text \<open>
  \<^verbatim>\<open>billingItemSchema\<close>, \<^verbatim>\<open>extraChargeSchema\<close> and \<^verbatim>\<open>extendedBillSchema\<close>.
  The body is dynamically typed JSON. The model types it where the schema only checks
  a type: a string field holds a string, a number field a number, \<open>items\<close> an array.
  \<open>taxRate\<close> keeps its JSON value, since the schema pre-processes it; an optional
  field is \<open>None\<close> when absent. The bound \<^verbatim>\<open>0.01\<close> of \<^verbatim>\<open>quantity\<close> is a double,
  \<open>binary64 (1 / 100)\<close>; the other bounds are integers.
\<close>

datatype json_value = Undefined | Null | Num rat | Str string | Bool bool

record billingItem =
  inventoryId :: string
  quantity :: rat
  sellingPrice :: rat

record extraCharge =
  name :: string
  amount :: rat

record bill_body =
  clientId :: string
  invoiceNumber :: string
  billDate :: string
  items :: "billingItem list"
  taxRate :: json_value
  extraCharges :: "extraCharge list option"
  notesField :: "string option"
  status :: "string option"

record validatedData =
  v_clientId :: string
  v_invoiceNumber :: string
  v_billDate :: string
  v_items :: "billingItem list"
  v_taxRate :: rat
  v_extraCharges :: "extraCharge list"
  v_notes :: "string option"
  v_status :: string

text \<open>A Zod issue is kept as the path of the offending field.\<close>

datatype path_elem = Key string | Index nat

type_synonym issue = "path_elem list"

definition min1 :: "issue \<Rightarrow> string \<Rightarrow> issue list" where
  "min1 p s = (if length s < 1 then [p] else [])"

definition billingItemSchema :: "nat \<Rightarrow> billingItem \<Rightarrow> issue list" where
  "billingItemSchema i it =
     min1 [Key ''items'', Index i, Key ''inventoryId''] (inventoryId it) @
     (if quantity it < binary64 (1 / 100) then [[Key ''items'', Index i, Key ''quantity'']]
      else []) @
     (if sellingPrice it < 0 then [[Key ''items'', Index i, Key ''sellingPrice'']] else [])"

definition extraChargeSchema :: "nat \<Rightarrow> extraCharge \<Rightarrow> issue list" where
  "extraChargeSchema i c =
     min1 [Key ''extraCharges'', Index i, Key ''name''] (name c) @
     (if amount c < 0 then [[Key ''extraCharges'', Index i, Key ''amount'']] else [])"

definition taxRate_preprocess :: "json_value \<Rightarrow> json_value" where
  "taxRate_preprocess val =
     (if val = Null \<or> val = Undefined \<or> val = Str [] then Num 10 else val)"

definition taxRate_issues :: "json_value \<Rightarrow> issue list" where
  "taxRate_issues val =
     (case taxRate_preprocess val of
        Num t \<Rightarrow> (if t < 0 then [[Key ''taxRate'']] else []) @
                 (if 100 < t then [[Key ''taxRate'']] else [])
      | _ \<Rightarrow> [[Key ''taxRate'']])"

definition taxRate_value :: "json_value \<Rightarrow> rat" where
  "taxRate_value val = (case taxRate_preprocess val of Num t \<Rightarrow> t | _ \<Rightarrow> 0)"

definition status_issues :: "string option \<Rightarrow> issue list" where
  "status_issues s =
     (case s of None \<Rightarrow> []
      | Some v \<Rightarrow> if v = ''due'' \<or> v = ''paid'' then [] else [[Key ''status'']])"

definition extendedBillSchema_issues :: "bill_body \<Rightarrow> issue list" where
  "extendedBillSchema_issues body =
     min1 [Key ''clientId''] (clientId body) @
     min1 [Key ''invoiceNumber''] (invoiceNumber body) @
     min1 [Key ''billDate''] (billDate body) @
     (if length (items body) < 1 then [[Key ''items'']] else []) @
     concat (map (\<lambda>(i, it). billingItemSchema i it) (enumerate 0 (items body))) @
     taxRate_issues (taxRate body) @
     (case extraCharges body of None \<Rightarrow> []
      | Some cs \<Rightarrow> concat (map (\<lambda>(i, c). extraChargeSchema i c) (enumerate 0 cs))) @
     status_issues (status body)"

definition extendedBillSchema_parse :: "bill_body \<Rightarrow> issue list + validatedData" where
  "extendedBillSchema_parse body =
     (case extendedBillSchema_issues body of
        [] \<Rightarrow> Inr \<lparr>v_clientId = clientId body, v_invoiceNumber = invoiceNumber body,
                   v_billDate = billDate body, v_items = items body,
                   v_taxRate = taxRate_value (taxRate body),
                   v_extraCharges = (case extraCharges body of None \<Rightarrow> [] | Some cs \<Rightarrow> cs),
                   v_notes = notesField body,
                   v_status = (case status body of None \<Rightarrow> ''due'' | Some s \<Rightarrow> s)\<rparr>
      | e # es \<Rightarrow> Inl (e # es))"

subsection \<open>Creating a bill: \<^verbatim>\<open>POST /api/bills\<close>\<close>

datatype response =
    Unauthorized
  | InvalidRequestData "issue list"
  | InventoryNotFound string
  | InsufficientStock rat rat
  | BillCreated bills_row
  | BillNotFound
  | BillUpdated bills_row
  | BillDeleted
  | Failed

text \<open>
  \<open>InsufficientStock a q\<close> is the response
  \<^verbatim>\<open>Insufficient stock. Available: ${availableQty}, Requested: ${item.quantity}\<close>
  and \<open>InventoryNotFound i\<close> is \<^verbatim>\<open>Inventory item ${item.inventoryId} not found\<close>, both
  with status 400; \<open>Failed\<close> is the status 500 of the \<^verbatim>\<open>catch\<close> block.
\<close>

record itemsData_entry =
  d_inventoryId :: string
  d_quantity :: rat
  d_sellingPrice :: rat
  d_total :: rat
  d_inventoryItem :: inventory_row

definition select_inventory :: "db \<Rightarrow> string \<Rightarrow> inventory_row option" where
  "select_inventory d i = find (\<lambda>r. inv_id r = i) (inventory d)"

definition select_bill :: "db \<Rightarrow> string \<Rightarrow> string \<Rightarrow> bills_row option" where
  "select_bill d i u = find (\<lambda>b. b_id b = i \<and> b_userId b = u) (bills d)"

text \<open>The first loop of the handler: availability of every line, and the subtotal.\<close>

fun validate_items ::
  "(rat \<Rightarrow> rat) \<Rightarrow> db \<Rightarrow> billingItem list \<Rightarrow> rat \<Rightarrow> itemsData_entry list \<Rightarrow>
   response + (rat \<times> itemsData_entry list)" where
  "validate_items fl d [] subtotal itemsData = Inr (subtotal, itemsData)"
| "validate_items fl d (item # rest) subtotal itemsData =
     (case select_inventory d (inventoryId item) of
        None \<Rightarrow> Inl (InventoryNotFound (inventoryId item))
      | Some inventoryItem \<Rightarrow>
          let availableQty = inv_availableQuantity inventoryItem in
          if availableQty < quantity item
          then Inl (InsufficientStock availableQty (quantity item))
          else
            let itemTotal = fl (quantity item * sellingPrice item) in
            validate_items fl d rest (fl (subtotal + itemTotal))
              (itemsData @
                [\<lparr>d_inventoryId = inventoryId item, d_quantity = quantity item,
                  d_sellingPrice = sellingPrice item, d_total = itemTotal,
                  d_inventoryItem = inventoryItem\<rparr>]))"

text \<open>The last loop of the handler: one update per line, from the row read by the first loop.\<close>

fun reduce_inventory ::
  "(rat \<Rightarrow> rat) \<Rightarrow> (rat \<Rightarrow> rat) \<Rightarrow> nat \<Rightarrow> itemsData_entry list \<Rightarrow> progress \<Rightarrow> progress" where
  "reduce_inventory fl money now [] p = p"
| "reduce_inventory fl money now (item # rest) p =
     (let newAvailableQuantity =
            fl (inv_availableQuantity (d_inventoryItem item) - d_quantity item)
      in reduce_inventory fl money now rest
           (exec money (UpdateInventory (d_inventoryId item) newAvailableQuantity now) p))"

text \<open>
  The bill is inserted with \<^verbatim>\<open>billDate: new Date(billDate)\<close>: when the string is no
  date the insert throws before anything is written, and the \<^verbatim>\<open>catch\<close> block
  answers with status 500.
\<close>

definition POST ::
  "(rat \<Rightarrow> rat) \<Rightarrow> (string \<Rightarrow> bool) \<Rightarrow> (rat \<Rightarrow> rat) \<Rightarrow> string \<Rightarrow> nat \<Rightarrow> string option \<Rightarrow>
   bill_body \<Rightarrow> db \<Rightarrow> response \<times> db \<times> db_write list" where
  "POST fl validDate money newBillId now session body d =
     (case session of
        None \<Rightarrow> (Unauthorized, d, [])
      | Some userId \<Rightarrow>
          (case extendedBillSchema_parse body of
             Inl issues \<Rightarrow> (InvalidRequestData issues, d, [])
           | Inr v \<Rightarrow>
               (case validate_items fl d (v_items v) 0 [] of
                  Inl resp \<Rightarrow> (resp, d, [])
                | Inr (subtotal, itemsData) \<Rightarrow>
                    let extraChargesTotal =
                          foldl (\<lambda>sum charge. fl (sum + amount charge)) 0 (v_extraCharges v);
                        tax = fl (fl (subtotal * v_taxRate v) / 100);
                        grandTotal = fl (fl (subtotal + tax) + extraChargesTotal);
                        billNumber = v_invoiceNumber v;
                        newBill =
                          \<lparr>b_id = newBillId, b_userId = userId, b_clientId = v_clientId v,
                           b_billNumber = billNumber, b_invoiceNumber = v_invoiceNumber v,
                           b_billDate = v_billDate v, b_subtotal = subtotal,
                           b_taxRate = v_taxRate v, b_tax = tax,
                           b_extraChargesTotal = extraChargesTotal, b_total = grandTotal,
                           b_status = (if v_status v = [] then ''due'' else v_status v),
                           b_notes = (case v_notes v of None \<Rightarrow> None
                                      | Some n \<Rightarrow> if n = [] then None else Some n),
                           b_updatedAt = now\<rparr>
                    in
                    if \<not> validDate (v_billDate v) then (Failed, d, [])
                    else
                    let p1 = exec money (InsertBill newBill) (d, []);
                        billItemsToInsert =
                          map (\<lambda>item. \<lparr>bi_billId = newBillId, bi_inventoryId = d_inventoryId item,
                                       bi_quantity = d_quantity item,
                                       bi_sellingPrice = d_sellingPrice item,
                                       bi_total = d_total item\<rparr>) itemsData;
                        p2 = exec money (InsertBillItems billItemsToInsert) p1;
                        p3 = (if length (v_extraCharges v) > 0
                              then exec money
                                     (InsertBillExtraCharges
                                        (map (\<lambda>charge. \<lparr>ec_billId = newBillId, ec_name = name charge,
                                                         ec_amount = amount charge\<rparr>)
                                           (v_extraCharges v))) p2
                              else p2);
                        p4 = reduce_inventory fl money now itemsData p3
                    in (BillCreated (store_bill money newBill), fst p4, snd p4))))"

subsection \<open>Updating the header: \<^verbatim>\<open>PUT\<close> and \<^verbatim>\<open>PATCH /api/bills/[id]\<close>\<close>

text \<open>
  The body of a \<^verbatim>\<open>PUT\<close>. A string field is \<open>None\<close> when absent; \<open>put_notes\<close>
  is \<open>Some None\<close> for \<^verbatim>\<open>null\<close>. The tax rate is absent, \<^verbatim>\<open>null\<close> or a number:
  what the numeric column makes of any other value is the schema's, and is left out.
\<close>

datatype put_taxRate = TaxAbsent | TaxNull | TaxNumber rat

record put_body =
  put_clientId :: "string option"
  put_billDate :: "string option"
  put_invoiceNumber :: "string option"
  put_status :: "string option"
  put_taxRate :: put_taxRate
  put_notes :: "string option option"

text \<open>\<^verbatim>\<open>if (body.f) updateData.f = body.f\<close>: the empty string is falsy.\<close>

definition truthy :: "string option \<Rightarrow> string option" where
  "truthy f = (case f of None \<Rightarrow> None | Some s \<Rightarrow> if s = [] then None else Some s)"

definition updateData :: "nat \<Rightarrow> put_body \<Rightarrow> bills_set" where
  "updateData now body =
     \<lparr>set_id = None, set_userId = None,
      set_clientId = truthy (put_clientId body),
      set_billNumber = None,
      set_invoiceNumber = truthy (put_invoiceNumber body),
      set_billDate = truthy (put_billDate body),
      set_subtotal = None,
      set_taxRate = (case put_taxRate body of TaxNumber t \<Rightarrow> Some t | _ \<Rightarrow> None),
      set_tax = None, set_extraChargesTotal = None, set_total = None,
      set_status = truthy (put_status body),
      set_notes = put_notes body,
      set_updatedAt = now\<rparr>"

text \<open>
  \<^verbatim>\<open>body.taxRate.toString()\<close> throws on \<^verbatim>\<open>null\<close>, before the bill is looked up:
  the \<^verbatim>\<open>catch\<close> block answers with status 500. So it does when the update is handed
  \<^verbatim>\<open>new Date(body.billDate)\<close> for a string that is no date: the update throws after the
  bill was found, and nothing is stored.
\<close>

definition PUT ::
  "(string \<Rightarrow> bool) \<Rightarrow> (rat \<Rightarrow> rat) \<Rightarrow> nat \<Rightarrow> string option \<Rightarrow> string \<Rightarrow> put_body \<Rightarrow> db \<Rightarrow>
   response \<times> db \<times> db_write list" where
  "PUT validDate money now session billId body d =
     (case session of
        None \<Rightarrow> (Unauthorized, d, [])
      | Some userId \<Rightarrow>
          if put_taxRate body = TaxNull then (Failed, d, [])
          else
            (case select_bill d billId userId of
               None \<Rightarrow> (BillNotFound, d, [])
             | Some existingBill \<Rightarrow>
                 if (case truthy (put_billDate body) of
                       None \<Rightarrow> False | Some s \<Rightarrow> \<not> validDate s)
                 then (Failed, d, [])
                 else
                   let p = exec money (UpdateBill billId userId (updateData now body)) (d, [])
                   in (BillUpdated (apply_set money (updateData now body) existingBill),
                       fst p, snd p)))"

text \<open>
  \<^verbatim>\<open>PATCH\<close> spreads the body into the \<^verbatim>\<open>set\<close> object: the body is any choice of
  columns of \<open>bills\<close>; its own \<open>updatedAt\<close> is overwritten.
\<close>

definition PATCH ::
  "(rat \<Rightarrow> rat) \<Rightarrow> nat \<Rightarrow> string option \<Rightarrow> string \<Rightarrow> bills_set \<Rightarrow> db \<Rightarrow>
   response \<times> db \<times> db_write list" where
  "PATCH money now session billId body d =
     (case session of
        None \<Rightarrow> (Unauthorized, d, [])
      | Some userId \<Rightarrow>
          (case select_bill d billId userId of
             None \<Rightarrow> (BillNotFound, d, [])
           | Some existingBill \<Rightarrow>
               let p = exec money (UpdateBill billId userId (body\<lparr>set_updatedAt := now\<rparr>)) (d, [])
               in (BillUpdated (apply_set money (body\<lparr>set_updatedAt := now\<rparr>) existingBill),
                   fst p, snd p)))"

subsection \<open>Deleting a bill: \<^verbatim>\<open>DELETE /api/bills/[id]\<close>\<close>

text \<open>
  The loop that restores the inventory reads the lot again for every item, and skips
  an item whose lot is not found.
\<close>

fun restore_inventory ::
  "(rat \<Rightarrow> rat) \<Rightarrow> (rat \<Rightarrow> rat) \<Rightarrow> nat \<Rightarrow> billItems_row list \<Rightarrow> progress \<Rightarrow> progress" where
  "restore_inventory fl money now [] p = p"
| "restore_inventory fl money now (item # rest) p =
     (case select_inventory (fst p) (bi_inventoryId item) of
        None \<Rightarrow> restore_inventory fl money now rest p
      | Some currentInventory \<Rightarrow>
          let newAvailableQuantity =
                fl (inv_availableQuantity currentInventory + bi_quantity item)
          in restore_inventory fl money now rest
               (exec money (UpdateInventory (bi_inventoryId item) newAvailableQuantity now) p))"

definition DELETE ::
  "(rat \<Rightarrow> rat) \<Rightarrow> (rat \<Rightarrow> rat) \<Rightarrow> nat \<Rightarrow> string option \<Rightarrow> string \<Rightarrow> db \<Rightarrow>
   response \<times> db \<times> db_write list" where
  "DELETE fl money now session billId d =
     (case session of
        None \<Rightarrow> (Unauthorized, d, [])
      | Some userId \<Rightarrow>
          (case select_bill d billId userId of
             None \<Rightarrow> (BillNotFound, d, [])
           | Some existingBill \<Rightarrow>
               let billItemsList = filter (\<lambda>r. bi_billId r = billId) (billItems d);
                   p1 = restore_inventory fl money now billItemsList (d, []);
                   p2 = exec money (DeleteBillItems billId) p1;
                   p3 = exec money (DeleteBillExtraCharges billId) p2;
                   p4 = exec money (DeleteBill billId userId) p3
               in (BillDeleted, fst p4, snd p4)))"

section \<open>Vocabulary of the statements\<close>

text \<open>The responses with which \<^verbatim>\<open>POST\<close> turns a request down (status 401 and 400).\<close>

definition rejected :: "response \<Rightarrow> bool" where
  "rejected r =
     (case r of Unauthorized \<Rightarrow> True | InvalidRequestData _ \<Rightarrow> True
      | InventoryNotFound _ \<Rightarrow> True | InsufficientStock _ _ \<Rightarrow> True | _ \<Rightarrow> False)"

text \<open>Every line names a lot that exists and holds at least the quantity asked for.\<close>

definition stock_available :: "db \<Rightarrow> billingItem list \<Rightarrow> bool" where
  "stock_available d its =
     list_all (\<lambda>item. case select_inventory d (inventoryId item) of
                         None \<Rightarrow> False
                       | Some lot \<Rightarrow> quantity item \<le> inv_availableQuantity lot) its"

text \<open>
  The entry the availability loop pushes for a line whose lot exists (the statements
  use it for lines in stock only).
\<close>

definition itemsData_of :: "(rat \<Rightarrow> rat) \<Rightarrow> db \<Rightarrow> billingItem \<Rightarrow> itemsData_entry" where
  "itemsData_of fl d item =
     \<lparr>d_inventoryId = inventoryId item, d_quantity = quantity item,
      d_sellingPrice = sellingPrice item, d_total = fl (quantity item * sellingPrice item),
      d_inventoryItem = the (select_inventory d (inventoryId item))\<rparr>"

definition valid_body :: "bill_body \<Rightarrow> bool" where
  "valid_body body = (extendedBillSchema_issues body = [])"

definition charges :: "bill_body \<Rightarrow> extraCharge list" where
  "charges body = (case extraCharges body of None \<Rightarrow> [] | Some cs \<Rightarrow> cs)"

text \<open>
  The sums of the handler, in doubles: left to right from 0, every product and every
  sum rounded.
\<close>

definition lines_total :: "(rat \<Rightarrow> rat) \<Rightarrow> billingItem list \<Rightarrow> rat" where
  "lines_total fl its = foldl (\<lambda>s it. fl (s + fl (quantity it * sellingPrice it))) 0 its"

definition charges_total :: "(rat \<Rightarrow> rat) \<Rightarrow> extraCharge list \<Rightarrow> rat" where
  "charges_total fl cs = foldl (\<lambda>s c. fl (s + amount c)) 0 cs"

text \<open>The date of a \<^verbatim>\<open>PUT\<close> body is absent, empty, or a string that is a date.\<close>

definition put_date_ok :: "(string \<Rightarrow> bool) \<Rightarrow> put_body \<Rightarrow> bool" where
  "put_date_ok validDate body =
     (case put_billDate body of None \<Rightarrow> True | Some s \<Rightarrow> s = [] \<or> validDate s)"

text \<open>
  A sequence of header updates (\<^verbatim>\<open>PUT\<close> and \<^verbatim>\<open>PATCH\<close> requests), run one after the
  other; the rows of \<open>billItems\<close> of one bill; the lot a write to the inventory targets.
\<close>

datatype header_request =
    PutRequest nat "string option" string put_body
  | PatchRequest nat "string option" string bills_set

fun header_update :: "(string \<Rightarrow> bool) \<Rightarrow> (rat \<Rightarrow> rat) \<Rightarrow> db \<Rightarrow> header_request \<Rightarrow> db" where
  "header_update validDate money d (PutRequest now session billId body) =
     fst (snd (PUT validDate money now session billId body d))"
| "header_update validDate money d (PatchRequest now session billId body) =
     fst (snd (PATCH money now session billId body d))"

definition header_updates ::
  "(string \<Rightarrow> bool) \<Rightarrow> (rat \<Rightarrow> rat) \<Rightarrow> header_request list \<Rightarrow> db \<Rightarrow> db" where
  "header_updates validDate money rs d = foldl (header_update validDate money) d rs"

definition write_target :: "db_write \<Rightarrow> string option" where
  "write_target w = (case w of UpdateInventory i q t \<Rightarrow> Some i | _ \<Rightarrow> None)"

definition bill_lines :: "db \<Rightarrow> string \<Rightarrow> billItems_row list" where
  "bill_lines d billId = filter (\<lambda>r. bi_billId r = billId) (billItems d)"

text \<open>
  What the handlers read for a lot id: the \<open>availableQuantity\<close> and the \<open>quantity\<close>
  of the row they select for it. The lines of a request on one lot, and the quantity
  the items of a bill hold on one lot.
\<close>

definition availableQuantity_of :: "db \<Rightarrow> string \<Rightarrow> rat option" where
  "availableQuantity_of d i = map_option inv_availableQuantity (select_inventory d i)"

definition quantity_of :: "db \<Rightarrow> string \<Rightarrow> rat option" where
  "quantity_of d i = map_option inv_quantity (select_inventory d i)"

definition lines_on :: "string \<Rightarrow> billingItem list \<Rightarrow> billingItem list" where
  "lines_on i its = filter (\<lambda>it. inventoryId it = i) its"

text \<open>
  What the releases of a bill make of the amount \<open>a\<close> available in lot \<open>i\<close>: the
  quantities of the bill's items on the lot are added one after the other, in doubles.
\<close>

definition released :: "(rat \<Rightarrow> rat) \<Rightarrow> db \<Rightarrow> string \<Rightarrow> string \<Rightarrow> rat \<Rightarrow> rat" where
  "released fl d billId i a =
     foldl (\<lambda>a q. fl (a + q)) a
       (map bi_quantity (filter (\<lambda>l. bi_inventoryId l = i) (bill_lines d billId)))"

text \<open>What the rounding of doubles is assumed to do where a statement needs it.\<close>

definition rounding :: "(rat \<Rightarrow> rat) \<Rightarrow> bool" where
  "rounding fl = (fl 0 = 0 \<and> (\<forall>x y. x \<le> y \<longrightarrow> fl x \<le> fl y))"

text \<open>The rows of the inventory hold doubles: rounding leaves them as they are.\<close>

definition holds_doubles :: "(rat \<Rightarrow> rat) \<Rightarrow> db \<Rightarrow> bool" where
  "holds_doubles fl d =
     list_all (\<lambda>r. fl (inv_availableQuantity r) = inv_availableQuantity r) (inventory d)"

text \<open>The invariant of the inventory: \<open>0 \<le> availableQuantity \<le> quantity\<close> in every row.\<close>

definition inventory_invariant :: "db \<Rightarrow> bool" where
  "inventory_invariant d =
     list_all (\<lambda>r. 0 \<le> inv_availableQuantity r \<and> inv_availableQuantity r \<le> inv_quantity r)
       (inventory d)"


subsection \<open>Example data\<close>

text \<open>
  The numbers of the examples are doubles: integers, halves, quarters, and
  \<open>binary64 (7 / 20)\<close>, the double that \<^verbatim>\<open>JSON.parse\<close> returns for \<^verbatim>\<open>0.35\<close>. The date
  parser of the examples knows the one date they use.
\<close>

definition known_date :: "string \<Rightarrow> bool" where
  "known_date s = (s = ''2025-01-01'')"

definition lot_row :: "string \<Rightarrow> rat \<Rightarrow> rat \<Rightarrow> inventory_row" where
  "lot_row i q a = \<lparr>inv_id = i, inv_quantity = q, inv_availableQuantity = a, inv_updatedAt = 0\<rparr>"

definition item_line :: "string \<Rightarrow> rat \<Rightarrow> rat \<Rightarrow> billingItem" where
  "item_line i q p = \<lparr>inventoryId = i, quantity = q, sellingPrice = p\<rparr>"

definition bill_request :: "billingItem list \<Rightarrow> json_value \<Rightarrow> extraCharge list \<Rightarrow> bill_body" where
  "bill_request its t cs =
     \<lparr>clientId = ''client-1'', invoiceNumber = ''INV-1'', billDate = ''2025-01-01'',
      items = its, taxRate = t, extraCharges = Some cs, notesField = None, status = None\<rparr>"

definition stock_db :: "inventory_row list \<Rightarrow> db" where
  "stock_db lots = \<lparr>bills = [], billItems = [], billExtraCharges = [], inventory = lots\<rparr>"

definition three_lots :: db where
  "three_lots = stock_db [lot_row ''L1'' 10 10, lot_row ''L2'' 10 4, lot_row ''L3'' 10 1]"

definition three_lines :: bill_body where
  "three_lines = bill_request [item_line ''L1'' 2 10, item_line ''L2'' 1 (11 / 2), item_line ''L3'' 5 1] (Num 10) []"

definition shipping_example :: bill_body where
  "shipping_example =
     bill_request [item_line ''L1'' 2 10, item_line ''L2'' 1 (11 / 2)] (Num 10)
       [\<lparr>name = ''Shipping'', amount = 3\<rparr>]"

definition half_unit :: bill_body where
  "half_unit = bill_request [item_line ''L1'' (1 / 2) (1 / 4)] (Num 100) []"

definition three_at_035 :: bill_body where
  "three_at_035 = bill_request [item_line ''L1'' 3 (binary64 (7 / 20))] (Num 10) []"

definition shipping_bill :: bills_row where
  "shipping_bill =
     \<lparr>b_id = ''B1'', b_userId = ''u'', b_clientId = ''client-1'', b_billNumber = ''INV-1'',
      b_invoiceNumber = ''INV-1'', b_billDate = ''2025-01-01'', b_subtotal = 51 / 2,
      b_taxRate = 10, b_tax = 51 / 20, b_extraChargesTotal = 3, b_total = 621 / 20,
      b_status = ''due'', b_notes = None, b_updatedAt = 1\<rparr>"

text \<open>
  The bill of the specification's example when the currency columns keep every digit:
  the tax and the total are the doubles next to 2.55 and to 31.05.
\<close>

definition shipping_doubles :: bills_row where
  "shipping_doubles =
     \<lparr>b_id = ''B1'', b_userId = ''u'', b_clientId = ''client-1'', b_billNumber = ''INV-1'',
      b_invoiceNumber = ''INV-1'', b_billDate = ''2025-01-01'', b_subtotal = 51 / 2,
      b_taxRate = 10, b_tax = 2871044762448691 / 1125899906842624, b_extraChargesTotal = 3,
      b_total = 8739798026865869 / 281474976710656,
      b_status = ''due'', b_notes = None, b_updatedAt = 1\<rparr>"

definition half_unit_exact :: bills_row where
  "half_unit_exact =
     \<lparr>b_id = ''B1'', b_userId = ''u'', b_clientId = ''client-1'', b_billNumber = ''INV-1'',
      b_invoiceNumber = ''INV-1'', b_billDate = ''2025-01-01'', b_subtotal = 1 / 8,
      b_taxRate = 100, b_tax = 1 / 8, b_extraChargesTotal = 0, b_total = 1 / 4,
      b_status = ''due'', b_notes = None, b_updatedAt = 1\<rparr>"

definition half_unit_rounded :: bills_row where
  "half_unit_rounded =
     \<lparr>b_id = ''B1'', b_userId = ''u'', b_clientId = ''client-1'', b_billNumber = ''INV-1'',
      b_invoiceNumber = ''INV-1'', b_billDate = ''2025-01-01'', b_subtotal = 13 / 100,
      b_taxRate = 100, b_tax = 13 / 100, b_extraChargesTotal = 0, b_total = 1 / 4,
      b_status = ''due'', b_notes = None, b_updatedAt = 1\<rparr>"

definition three_at_035_rounded :: bills_row where
  "three_at_035_rounded =
     \<lparr>b_id = ''B1'', b_userId = ''u'', b_clientId = ''client-1'', b_billNumber = ''INV-1'',
      b_invoiceNumber = ''INV-1'', b_billDate = ''2025-01-01'', b_subtotal = 21 / 20,
      b_taxRate = 10, b_tax = 1 / 10, b_extraChargesTotal = 0, b_total = 23 / 20,
      b_status = ''due'', b_notes = None, b_updatedAt = 1\<rparr>"

definition no_lines :: bill_body where
  "no_lines = bill_request [] (Num 10) []"

definition zero_quantity :: bill_body where
  "zero_quantity = bill_request [item_line ''L1'' 2 10, item_line ''L2'' 0 5] (Num 10) []"

definition negative_price :: bill_body where
  "negative_price = bill_request [item_line ''L1'' 2 (- 1)] (Num 10) []"

definition tax_out_of_range :: bill_body where
  "tax_out_of_range = bill_request [item_line ''L1'' 2 10] (Num 101) []"

definition absent_tax :: "json_value \<Rightarrow> bill_body" where
  "absent_tax t =
     bill_request [item_line ''L1'' 2 10, item_line ''L2'' 1 (11 / 2)] t
       [\<lparr>name = ''Shipping'', amount = 3\<rparr>]"

definition twin_lots :: db where
  "twin_lots = stock_db [lot_row ''L1'' 10 1, lot_row ''L2'' 10 1, lot_row ''L3'' 10 8]"

definition short_of :: "string \<Rightarrow> bill_body" where
  "short_of i =
     bill_request [item_line ''L3'' 2 10, item_line i 5 1, item_line ''L3'' 9 1] (Num 10) []"

definition unknown_lot_first :: bill_body where
  "unknown_lot_first = bill_request [item_line ''LX'' 1 1, item_line ''L1'' 5 1] (Num 10) []"

definition one_bill_row :: "rat \<Rightarrow> string \<Rightarrow> nat \<Rightarrow> bills_row" where
  "one_bill_row rate st t =
     \<lparr>b_id = ''B1'', b_userId = ''u'', b_clientId = ''client-1'', b_billNumber = ''INV-1'',
      b_invoiceNumber = ''INV-1'', b_billDate = ''2025-01-01'', b_subtotal = 100,
      b_taxRate = rate, b_tax = 10, b_extraChargesTotal = 3, b_total = 113,
      b_status = st, b_notes = None, b_updatedAt = t\<rparr>"

definition one_bill :: "bills_row \<Rightarrow> db" where
  "one_bill b =
     \<lparr>bills = [b],
      billItems = [\<lparr>bi_billId = ''B1'', bi_inventoryId = ''L1'', bi_quantity = 2,
                    bi_sellingPrice = 50, bi_total = 100\<rparr>],
      billExtraCharges = [\<lparr>ec_billId = ''B1'', ec_name = ''Shipping'', ec_amount = 3\<rparr>],
      inventory = [lot_row ''L1'' 10 8]\<rparr>"

definition put_only :: "string option \<Rightarrow> put_taxRate \<Rightarrow> put_body" where
  "put_only st t =
     \<lparr>put_clientId = None, put_billDate = None, put_invoiceNumber = None, put_status = st,
      put_taxRate = t, put_notes = None\<rparr>"

definition patch_status :: "string \<Rightarrow> bills_set" where
  "patch_status st =
     \<lparr>set_id = None, set_userId = None, set_clientId = None, set_billNumber = None,
      set_invoiceNumber = None, set_billDate = None, set_subtotal = None, set_taxRate = None,
      set_tax = None, set_extraChargesTotal = None, set_total = None, set_status = Some st,
      set_notes = None, set_updatedAt = 0\<rparr>"

definition vanished_lot :: db where
  "vanished_lot =
     \<lparr>bills = [one_bill_row 10 ''due'' 1],
      billItems = [\<lparr>bi_billId = ''B1'', bi_inventoryId = ''L1'', bi_quantity = 2,
                    bi_sellingPrice = 20, bi_total = 40\<rparr>,
                   \<lparr>bi_billId = ''B1'', bi_inventoryId = ''LX'', bi_quantity = 3,
                    bi_sellingPrice = 20, bi_total = 60\<rparr>],
      billExtraCharges = [\<lparr>ec_billId = ''B1'', ec_name = ''Shipping'', ec_amount = 3\<rparr>],
      inventory = [lot_row ''L1'' 10 5]\<rparr>"

definition after_delete :: db where
  "after_delete =
     \<lparr>bills = [], billItems = [], billExtraCharges = [],
      inventory = [\<lparr>inv_id = ''L1'', inv_quantity = 10, inv_availableQuantity = 7,
                    inv_updatedAt = 9\<rparr>]\<rparr>"

definition one_lot :: db where
  "one_lot = stock_db [lot_row ''L1'' 10 10]"

definition same_lot_twice :: bill_body where
  "same_lot_twice = bill_request [item_line ''L1'' 2 10, item_line ''L1'' 3 10] (Num 10) []"

text \<open>A lot with 0.11 available and a bill for 0.04 of it, as doubles.\<close>

definition eleven_hundredths :: db where
  "eleven_hundredths = stock_db [lot_row ''L1'' 1 (binary64 (11 / 100))]"

definition four_hundredths :: bill_body where
  "four_hundredths = bill_request [item_line ''L1'' (binary64 (1 / 25)) 1] (Num 10) []"

definition nine_of_ten :: db where
  "nine_of_ten =
     \<lparr>bills = [one_bill_row 10 ''due'' 1],
      billItems = [\<lparr>bi_billId = ''B1'', bi_inventoryId = ''L1'', bi_quantity = 2,
                    bi_sellingPrice = 50, bi_total = 100\<rparr>],
      billExtraCharges = [],
      inventory = [lot_row ''L1'' 10 9]\<rparr>"

definition three_of_lot :: bill_body where
  "three_of_lot = bill_request [item_line ''L1'' 3 10] (Num 10) []"

lemmas example_defs = known_date_def lot_row_def item_line_def bill_request_def stock_db_def
  three_lots_def three_lines_def shipping_example_def half_unit_def three_at_035_def
  shipping_bill_def shipping_doubles_def half_unit_exact_def half_unit_rounded_def
  three_at_035_rounded_def no_lines_def zero_quantity_def negative_price_def tax_out_of_range_def
  absent_tax_def twin_lots_def short_of_def unknown_lot_first_def
  one_bill_row_def one_bill_def put_only_def patch_status_def vanished_lot_def after_delete_def
  one_lot_def same_lot_twice_def eleven_hundredths_def four_hundredths_def nine_of_ten_def
  three_of_lot_def

lemmas schema_defs = extendedBillSchema_parse_def extendedBillSchema_issues_def
  billingItemSchema_def extraChargeSchema_def min1_def taxRate_issues_def taxRate_preprocess_def
  taxRate_value_def status_issues_def

lemmas handler_defs = POST_def select_inventory_def select_bill_def exec_def
  store_bill_def store_billItem_def store_extraCharge_def Let_def

lemmas header_defs = PUT_def PATCH_def updateData_def truthy_def apply_set_def set_column_def

section \<open>Lemmas on the handlers\<close>

subsection \<open>The rounding of doubles\<close>

text \<open>
  \<open>binary64\<close> rounds 0 to 0 and is monotone, which is all the statements below ask of
  a rounding.
\<close>

lemma round_even_of_int [simp]: "round_even (of_int n) = n"
  by (simp add: round_even_def)

lemma round_even_lower: "\<lfloor>x\<rfloor> \<le> round_even x"
  by (simp add: round_even_def Let_def)

lemma round_even_upper: "round_even x \<le> \<lceil>x\<rceil>"
proof (cases "x = of_int \<lfloor>x\<rfloor>")
  case True
  then have "round_even x = \<lfloor>x\<rfloor>" by (metis round_even_of_int)
  then show ?thesis by (simp add: floor_le_ceiling)
next
  case False
  then have "\<lceil>x\<rceil> = \<lfloor>x\<rfloor> + 1" by (metis ceiling_altdef)
  then show ?thesis by (simp add: round_even_def Let_def)
qed

lemma round_even_ge: "of_int n \<le> x \<Longrightarrow> n \<le> round_even x"
proof -
  assume "of_int n \<le> x"
  then have "n \<le> \<lfloor>x\<rfloor>" by (simp add: le_floor_iff)
  with round_even_lower[of x] show ?thesis by linarith
qed

lemma round_even_le: "x \<le> of_int n \<Longrightarrow> round_even x \<le> n"
proof -
  assume "x \<le> of_int n"
  then have "\<lceil>x\<rceil> \<le> n" by (simp add: ceiling_le_iff)
  with round_even_upper[of x] show ?thesis by linarith
qed

lemma round_even_mono: "x \<le> y \<Longrightarrow> round_even x \<le> round_even y"
proof (cases "\<lfloor>x\<rfloor> = \<lfloor>y\<rfloor>")
  case True
  assume "x \<le> y"
  then have "x - of_int \<lfloor>x\<rfloor> \<le> y - of_int \<lfloor>y\<rfloor>" using True by simp
  then show ?thesis using True by (auto simp: round_even_def Let_def)
next
  case False
  assume "x \<le> y"
  then have "\<lfloor>x\<rfloor> \<le> \<lfloor>y\<rfloor>" by (rule floor_mono)
  with False have "\<lfloor>x\<rfloor> + 1 \<le> \<lfloor>y\<rfloor>" by simp
  moreover have "round_even x \<le> \<lfloor>x\<rfloor> + 1" by (simp add: round_even_def Let_def)
  ultimately show ?thesis using round_even_lower[of y] by linarith
qed

lemma two_powi_pos [simp]: "0 < (2 :: rat) powi k"
  by (simp add: power_int_def)

lemma two_powi_mono: "j \<le> k \<Longrightarrow> (2 :: rat) powi j \<le> 2 powi k"
  by (rule power_int_increasing) simp_all

lemma two_powi_less: "(2 :: rat) powi j < 2 powi k \<Longrightarrow> j < k"
  using two_powi_mono[of k j] by (cases "j < k") auto

lemma binade_bounds:
  assumes "0 < a"
  shows "2 powi binade a \<le> a \<and> a < 2 powi (binade a + 1)"
proof (cases "1 \<le> a")
  case True
  then have pos: "0 < \<lfloor>a\<rfloor>" by linarith
  from bitlen_bounds[OF pos] have
    b: "2 ^ nat (bitlen \<lfloor>a\<rfloor> - 1) \<le> \<lfloor>a\<rfloor>" "\<lfloor>a\<rfloor> < 2 ^ nat (bitlen \<lfloor>a\<rfloor>)" by auto
  have ge: "1 \<le> bitlen \<lfloor>a\<rfloor>" using pos bitlen_eq_zero_iff[of "\<lfloor>a\<rfloor>"] bitlen_nonneg[of "\<lfloor>a\<rfloor>"]
    by (cases "bitlen \<lfloor>a\<rfloor> = 0") auto
  have "(2 :: rat) ^ nat (bitlen \<lfloor>a\<rfloor> - 1) = of_int (2 ^ nat (bitlen \<lfloor>a\<rfloor> - 1))" by simp
  also have "\<dots> \<le> of_int \<lfloor>a\<rfloor>" using b(1) by (simp only: of_int_le_iff)
  also have "\<dots> \<le> a" by simp
  finally have lo: "(2 :: rat) ^ nat (bitlen \<lfloor>a\<rfloor> - 1) \<le> a" .
  have "\<lfloor>a\<rfloor> + 1 \<le> 2 ^ nat (bitlen \<lfloor>a\<rfloor>)" using b(2) by simp
  then have "of_int (\<lfloor>a\<rfloor> + 1) \<le> (of_int (2 ^ nat (bitlen \<lfloor>a\<rfloor>)) :: rat)" by (simp only: of_int_le_iff)
  moreover have "a < of_int (\<lfloor>a\<rfloor> + 1)" by linarith
  ultimately have hi: "a < (2 :: rat) ^ nat (bitlen \<lfloor>a\<rfloor>)" by simp
  from True lo hi ge show ?thesis by (simp add: binade_def power_int_def)
next
  case False
  then have a1: "a < 1" by simp
  define m where "m = \<lfloor>1 / a\<rfloor>"
  define n where "n = nat (bitlen m - 1)"
  have "1 < 1 / a" using assms a1 by simp
  then have pos: "0 < m" unfolding m_def by linarith
  have ge: "1 \<le> bitlen m" using pos bitlen_eq_zero_iff[of m] bitlen_nonneg[of m]
    by (cases "bitlen m = 0") auto
  then have k: "bitlen m - 1 = int n" and k1: "nat (bitlen m) = Suc n" by (simp_all add: n_def)
  from bitlen_bounds[OF pos] have b: "2 ^ n \<le> m" "m < 2 ^ Suc n"
    unfolding k1 n_def[symmetric] by simp_all
  have "(2 :: rat) ^ n = of_int (2 ^ n)" by simp
  also have "\<dots> \<le> of_int m" using b(1) by (simp only: of_int_le_iff)
  also have "\<dots> \<le> 1 / a" by (simp add: m_def)
  finally have "(2 :: rat) ^ n \<le> 1 / a" .
  then have up: "a * 2 ^ n \<le> 1" using assms by (simp add: field_simps)
  have "m + 1 \<le> 2 ^ Suc n" using b(2) by simp
  then have "of_int (m + 1) \<le> (of_int (2 ^ Suc n) :: rat)" by (simp only: of_int_le_iff)
  moreover have "1 / a < of_int (m + 1)" unfolding m_def by linarith
  ultimately have "1 / a < (2 :: rat) ^ Suc n" by simp
  then have low: "1 < a * (2 * 2 ^ n)" using assms by (simp add: field_simps)
  have pk: "(2 :: rat) powi int n = 2 ^ n" by simp
  have mk: "(2 :: rat) powi (- int n) = 1 / 2 ^ n"
    unfolding power_int_minus pk by (simp add: inverse_eq_divide)
  have "(2 :: rat) powi (int n + 1) = 2 * 2 ^ n"
    using power_int_add[of "2 :: rat" "int n" 1] by simp
  then have mk1: "(2 :: rat) powi (- int n - 1) = 1 / (2 * 2 ^ n)"
    using power_int_minus[of "2 :: rat" "int n + 1"] by (simp add: inverse_eq_divide)
  have mk2: "(2 :: rat) powi (- int n + 1) = 2 / 2 ^ n"
    using power_int_add[of "2 :: rat" "- int n" 1] mk by simp
  have def: "binade a = (if a * 2 ^ n = 1 then - int n else - int n - 1)"
    using a1 by (simp add: binade_def Let_def m_def[symmetric] k)
  have p: "(0 :: rat) < 2 ^ n" by simp
  show ?thesis
  proof (cases "a * 2 ^ n = 1")
    case True
    then have a: "a = 1 / 2 ^ n" using p by (simp add: field_simps)
    from True def have e: "binade a = - int n" by simp
    have "2 powi (- int n) \<le> a" unfolding mk a by simp
    moreover have "a < 2 powi (- int n + 1)" unfolding mk2 a using p by (simp add: field_simps)
    ultimately show ?thesis unfolding e by simp
  next
    case F: False
    with def have "binade a = - int n - 1" by simp
    moreover have "1 / (2 * 2 ^ n) \<le> a" using low p by (simp add: field_simps)
    moreover have "a < 1 / 2 ^ n" using up F p by (simp add: field_simps)
    ultimately show ?thesis using mk mk1 by simp
  qed
qed

lemma binade_unique:
  assumes "0 < a" and "2 powi e \<le> a" and "a < 2 powi (e + 1)"
  shows "binade a = e"
proof -
  from binade_bounds[OF assms(1)] have b: "2 powi binade a \<le> a" "a < 2 powi (binade a + 1)" by auto
  from b(1) assms(3) have "(2 :: rat) powi binade a < 2 powi (e + 1)" by simp
  then have "binade a < e + 1" by (rule two_powi_less)
  moreover from assms(2) b(2) have "(2 :: rat) powi e < 2 powi (binade a + 1)" by simp
  then have "e < binade a + 1" by (rule two_powi_less)
  ultimately show ?thesis by simp
qed

lemma binade_mono:
  assumes "0 < a" and "a \<le> b"
  shows "binade a \<le> binade b"
proof -
  from assms have "0 < b" by simp
  from binade_bounds[OF assms(1)] binade_bounds[OF this] assms(2)
  have "(2 :: rat) powi binade a < 2 powi (binade b + 1)" by simp
  then have "binade a < binade b + 1" by (rule two_powi_less)
  then show ?thesis by simp
qed

lemma binary64_0 [simp]: "binary64 0 = 0"
  by (simp add: binary64_def)

lemma binary64_minus: "binary64 (- x) = - binary64 x"
  by (simp add: binary64_def Let_def sgn_minus)

lemma binary64_pos:
  "0 < a \<Longrightarrow>
   binary64 a = of_int (round_even (a / 2 powi (max (binade a) (- 1022) - 52)))
                * 2 powi (max (binade a) (- 1022) - 52)"
  by (simp add: binary64_def Let_def)

lemma binary64_binade:
  assumes "0 < a" and "2 powi e \<le> a" and "a < 2 powi (e + 1)"
  shows "binary64 a = of_int (round_even (a / 2 powi (max e (- 1022) - 52)))
                      * 2 powi (max e (- 1022) - 52)"
  unfolding binary64_pos[OF assms(1)] binade_unique[OF assms] ..

lemma two_powi_diff: "(2 :: rat) powi j / 2 powi k = 2 powi (j - k)"
  by (simp add: power_int_diff)

lemma two_powi_add: "(2 :: rat) powi j * 2 powi k = 2 powi (j + k)"
  by (simp add: power_int_add)

lemma two_powi_numeral: "(2 :: rat) powi 53 = of_int (2 ^ 53)" "(2 :: rat) powi 52 = of_int (2 ^ 52)"
  by (simp_all add: power_int_def)

lemma floor_numeral_div_rat:
  "\<lfloor>(numeral a :: rat) / numeral b\<rfloor> = numeral a div numeral b"
  using floor_divide_of_int_eq[of "numeral a" "numeral b", where ?'a = rat] by simp

lemma floor_one_div_rat: "\<lfloor>(1 :: rat) / numeral b\<rfloor> = 1 div numeral b"
  using floor_divide_of_int_eq[of 1 "numeral b", where ?'a = rat] by simp

lemma binary64_upper:
  assumes "0 < a"
  shows "binary64 a \<le> 2 powi (max (binade a) (- 1022) + 1)"
proof -
  define E where "E = max (binade a) (- 1022)"
  have "a < 2 powi (binade a + 1)" using binade_bounds[OF assms] by simp
  also have "\<dots> \<le> 2 powi (E + 1)" by (rule two_powi_mono) (simp add: E_def)
  finally have "a / 2 powi (E - 52) \<le> 2 powi (E + 1) / 2 powi (E - 52)"
    by (simp add: divide_right_mono)
  also have "\<dots> = 2 powi 53" unfolding two_powi_diff by simp
  also have "\<dots> = of_int (2 ^ 53)" by (rule two_powi_numeral)
  finally have "round_even (a / 2 powi (E - 52)) \<le> 2 ^ 53" by (rule round_even_le)
  then have "(of_int (round_even (a / 2 powi (E - 52))) :: rat) \<le> of_int (2 ^ 53)"
    by (simp only: of_int_le_iff)
  then have "of_int (round_even (a / 2 powi (E - 52))) * 2 powi (E - 52)
             \<le> (of_int (2 ^ 53) :: rat) * 2 powi (E - 52)"
    by (rule mult_right_mono) simp
  also have "(of_int (2 ^ 53) :: rat) * 2 powi (E - 52) = 2 powi 53 * 2 powi (E - 52)"
    by (simp only: two_powi_numeral)
  also have "\<dots> = 2 powi (53 + (E - 52))" by (rule two_powi_add)
  also have "53 + (E - 52) = E + 1" by simp
  finally show ?thesis unfolding binary64_pos[OF assms] E_def .
qed

lemma binary64_lower:
  assumes "0 < a" and "- 1022 \<le> binade a"
  shows "2 powi binade a \<le> binary64 a"
proof -
  define E where "E = binade a"
  have m: "max E (- 1022) = E" using assms(2) by (simp add: E_def)
  have "2 powi E \<le> a" using binade_bounds[OF assms(1)] by (simp add: E_def)
  then have "2 powi E / 2 powi (E - 52) \<le> a / 2 powi (E - 52)"
    by (simp add: divide_right_mono)
  moreover have "(2 :: rat) powi E / 2 powi (E - 52) = 2 powi 52"
    unfolding two_powi_diff by simp
  ultimately have "of_int (2 ^ 52) \<le> a / 2 powi (E - 52)" by (simp only: two_powi_numeral)
  then have "2 ^ 52 \<le> round_even (a / 2 powi (E - 52))" by (rule round_even_ge)
  then have "(of_int (2 ^ 52) :: rat) \<le> of_int (round_even (a / 2 powi (E - 52)))"
    by (simp only: of_int_le_iff)
  then have le: "(of_int (2 ^ 52) :: rat) * 2 powi (E - 52)
             \<le> of_int (round_even (a / 2 powi (E - 52))) * 2 powi (E - 52)"
    by (rule mult_right_mono) simp
  have "(2 :: rat) powi E = 2 powi (52 + (E - 52))" by simp
  also have "\<dots> = 2 powi 52 * 2 powi (E - 52)" by (rule two_powi_add[symmetric])
  also have "\<dots> = of_int (2 ^ 52) * 2 powi (E - 52)" by (simp only: two_powi_numeral)
  also note le
  finally show ?thesis unfolding binary64_pos[OF assms(1)] E_def[symmetric] m .
qed

lemma binary64_nonneg_pos: "0 < a \<Longrightarrow> 0 \<le> binary64 a"
proof -
  assume a: "0 < a"
  have "0 \<le> a / 2 powi (max (binade a) (- 1022) - 52)" using a by simp
  then have "(0 :: int) \<le> round_even (a / 2 powi (max (binade a) (- 1022) - 52))"
    using round_even_ge[of 0] by simp
  then show ?thesis unfolding binary64_pos[OF a] by simp
qed

lemma binary64_mono_pos:
  assumes "0 < a" and "a \<le> b"
  shows "binary64 a \<le> binary64 b"
proof -
  from assms have b: "0 < b" by simp
  define Ea where "Ea = max (binade a) (- 1022)"
  define Eb where "Eb = max (binade b) (- 1022)"
  have le: "Ea \<le> Eb" using binade_mono[OF assms] by (simp add: Ea_def Eb_def)
  show ?thesis
  proof (cases "Ea = Eb")
    case True
    have "a / 2 powi (Eb - 52) \<le> b / 2 powi (Eb - 52)" using assms(2) by (simp add: divide_right_mono)
    then have "round_even (a / 2 powi (Eb - 52)) \<le> round_even (b / 2 powi (Eb - 52))"
      by (rule round_even_mono)
    then have "(of_int (round_even (a / 2 powi (Eb - 52))) :: rat)
               \<le> of_int (round_even (b / 2 powi (Eb - 52)))"
      by (simp only: of_int_le_iff)
    then have "of_int (round_even (a / 2 powi (Eb - 52))) * 2 powi (Eb - 52)
               \<le> (of_int (round_even (b / 2 powi (Eb - 52))) :: rat) * 2 powi (Eb - 52)"
      by (rule mult_right_mono) simp
    then show ?thesis
      unfolding binary64_pos[OF assms(1)] binary64_pos[OF b] Ea_def[symmetric] Eb_def[symmetric] True .
  next
    case False
    with le have lt: "Ea < Eb" by simp
    then have nb: "- 1022 \<le> binade b" and eb: "Eb = binade b"
      by (auto simp: Ea_def Eb_def max_def split: if_splits)
    have "binary64 a \<le> 2 powi (Ea + 1)" using binary64_upper[OF assms(1)] by (simp add: Ea_def)
    also have "\<dots> \<le> 2 powi Eb" by (rule two_powi_mono) (use lt in simp)
    also have "\<dots> \<le> binary64 b" unfolding eb by (rule binary64_lower[OF b nb])
    finally show ?thesis .
  qed
qed

lemma binary64_mono: "x \<le> y \<Longrightarrow> binary64 x \<le> binary64 y"
proof -
  assume xy: "x \<le> y"
  consider (pos) "0 < x" | (zero) "x = 0" | (neg) "x < 0" by linarith
  then show ?thesis
  proof cases
    case pos
    then show ?thesis using xy by (rule binary64_mono_pos)
  next
    case zero
    show ?thesis
    proof (cases "y = 0")
      case True
      with zero show ?thesis by simp
    next
      case False
      with zero xy have "0 < y" by simp
      from binary64_nonneg_pos[OF this] zero show ?thesis by simp
    qed
  next
    case neg
    then have nx: "0 < - x" by simp
    consider (ypos) "0 < y" | (yzero) "y = 0" | (yneg) "y < 0" by linarith
    then show ?thesis
    proof cases
      case ypos
      from binary64_nonneg_pos[OF nx] binary64_nonneg_pos[OF ypos]
      show ?thesis unfolding binary64_minus by linarith
    next
      case yzero
      from binary64_nonneg_pos[OF nx] yzero show ?thesis unfolding binary64_minus by simp
    next
      case yneg
      then have "0 < - y" "- y \<le> - x" using xy by simp_all
      from binary64_mono_pos[OF this] show ?thesis unfolding binary64_minus by simp
    qed
  qed
qed

lemma binary64_nonneg: "0 \<le> x \<Longrightarrow> 0 \<le> binary64 x"
  using binary64_mono[of 0 x] by simp

lemma rounding_binary64: "rounding binary64"
  unfolding rounding_def using binary64_mono by simp

text \<open>
  The rules that evaluate \<open>binary64\<close> on a numeral: the rounding is unfolded once its
  argument is known to be positive.
\<close>

lemmas binary64_eval = binary64_pos binary64_minus binade_def round_even_def Let_def
  compute_bitlen power_int_def power_one_over floor_numeral_div_rat floor_one_div_rat


text \<open>The double of the literal \<^verbatim>\<open>0.01\<close>, the least quantity the schema accepts.\<close>

lemma binary64_hundredth [simp]:
  "binary64 (1 / 100) = 5764607523034235 / 576460752303423488"
  by (simp add: binary64_eval)

subsection \<open>The availability loop\<close>

lemma validate_items_rejects:
  "item \<in> set its \<Longrightarrow> select_inventory d (inventoryId item) = Some lot \<Longrightarrow>
   inv_availableQuantity lot < quantity item \<Longrightarrow>
   \<exists>e. validate_items fl d its s acc = Inl e \<and> rejected e"
proof (induction its arbitrary: s acc)
  case Nil
  then show ?case by simp
next
  case (Cons a its)
  show ?case
  proof (cases "select_inventory d (inventoryId a)")
    case None
    then show ?thesis by (simp add: rejected_def)
  next
    case (Some r)
    show ?thesis
    proof (cases "inv_availableQuantity r < quantity a")
      case True
      with Some show ?thesis by (simp add: rejected_def)
    next
      case False
      with Cons.prems Some have "item \<in> set its" by auto
      from Cons.IH[OF this Cons.prems(2,3)] Some False show ?thesis by (simp add: Let_def)
    qed
  qed
qed

lemma validate_items_first_offender:
  "stock_available d pre \<Longrightarrow> select_inventory d (inventoryId bad) = Some lot \<Longrightarrow>
   inv_availableQuantity lot < quantity bad \<Longrightarrow>
   validate_items fl d (pre @ bad # post) s acc =
     Inl (InsufficientStock (inv_availableQuantity lot) (quantity bad))"
  by (induction pre arbitrary: s acc)
     (auto simp: stock_available_def Let_def split: option.splits)

lemma validate_items_accepts:
  "stock_available d its \<Longrightarrow>
   validate_items fl d its s acc =
     Inr (foldl (\<lambda>s it. fl (s + fl (quantity it * sellingPrice it))) s its,
          acc @ map (itemsData_of fl d) its)"
  by (induction its arbitrary: s acc)
     (auto simp: stock_available_def Let_def itemsData_of_def split: option.splits)

subsection \<open>The schema\<close>

lemma concat_enumerate_issue:
  assumes "it \<in> set its" and "\<And>i. f i it \<noteq> []"
  shows "concat (map (\<lambda>(i, x). f i x) (enumerate n its)) \<noteq> []"
proof -
  from assms(1) obtain k where k: "k < length its" "its ! k = it"
    by (auto simp: in_set_conv_nth)
  then have "(n + k, it) \<in> set (enumerate n its)"
    by (simp add: in_set_enumerate_eq)
  moreover have "f (n + k) it \<noteq> []" by (rule assms(2))
  ultimately show ?thesis by force
qed

lemma quantity_issue: "quantity it \<le> 0 \<Longrightarrow> billingItemSchema i it \<noteq> []"
  by (simp add: billingItemSchema_def)

lemma sellingPrice_issue: "sellingPrice it < 0 \<Longrightarrow> billingItemSchema i it \<noteq> []"
  by (simp add: billingItemSchema_def)

lemma taxRate_range_issue: "t < 0 \<or> 100 < t \<Longrightarrow> taxRate_issues (Num t) \<noteq> []"
  by (auto simp: taxRate_issues_def taxRate_preprocess_def)

lemma malformed_issues:
  assumes "items body = [] \<or> (\<exists>it\<in>set (items body). quantity it \<le> 0) \<or>
           (\<exists>it\<in>set (items body). sellingPrice it < 0) \<or>
           (\<exists>t. taxRate body = Num t \<and> (t < 0 \<or> 100 < t))"
  shows "extendedBillSchema_issues body \<noteq> []"
proof -
  consider (empty) "items body = []"
    | (qty) it where "it \<in> set (items body)" "quantity it \<le> 0"
    | (price) it where "it \<in> set (items body)" "sellingPrice it < 0"
    | (tax) t where "taxRate body = Num t" "t < 0 \<or> 100 < t"
    using assms by blast
  then show ?thesis
  proof cases
    case empty
    then show ?thesis by (simp add: extendedBillSchema_issues_def)
  next
    case qty
    from concat_enumerate_issue[OF qty(1), of billingItemSchema 0] quantity_issue[OF qty(2)]
    show ?thesis by (simp add: extendedBillSchema_issues_def)
  next
    case price
    from concat_enumerate_issue[OF price(1), of billingItemSchema 0] sellingPrice_issue[OF price(2)]
    show ?thesis by (simp add: extendedBillSchema_issues_def)
  next
    case tax
    from taxRate_range_issue[OF tax(2)] tax(1)
    show ?thesis by (simp add: extendedBillSchema_issues_def)
  qed
qed

lemma parse_valid:
  "valid_body body \<Longrightarrow>
   extendedBillSchema_parse body =
     Inr \<lparr>v_clientId = clientId body, v_invoiceNumber = invoiceNumber body,
          v_billDate = billDate body, v_items = items body,
          v_taxRate = taxRate_value (taxRate body),
          v_extraCharges = (case extraCharges body of None \<Rightarrow> [] | Some cs \<Rightarrow> cs),
          v_notes = notesField body,
          v_status = (case status body of None \<Rightarrow> ''due'' | Some s \<Rightarrow> s)\<rparr>"
  by (simp add: valid_body_def extendedBillSchema_parse_def)




subsection \<open>The writes of \<^verbatim>\<open>POST\<close>\<close>

lemma reduce_inventory_bills [simp]:
  "bills (fst (reduce_inventory fl money now es p)) = bills (fst p)"
  by (induction es arbitrary: p) (auto simp: exec_def Let_def)

lemma reduce_inventory_billItems [simp]:
  "billItems (fst (reduce_inventory fl money now es p)) = billItems (fst p)"
  by (induction es arbitrary: p) (auto simp: exec_def Let_def)

lemma reduce_inventory_billExtraCharges [simp]:
  "billExtraCharges (fst (reduce_inventory fl money now es p)) = billExtraCharges (fst p)"
  by (induction es arbitrary: p) (auto simp: exec_def Let_def)

text \<open>With nothing rounded the sums of the handler are the sums of the specification.\<close>

lemma foldl_plus: "foldl (\<lambda>s x. s + f x) a xs = a + sum_list (map f xs)" for a :: rat
  by (induction xs arbitrary: a) simp_all

lemma lines_total_exact:
  "lines_total (\<lambda>x. x) its = sum_list (map (\<lambda>it. quantity it * sellingPrice it) its)"
  unfolding lines_total_def foldl_plus by simp

lemma charges_total_exact: "charges_total (\<lambda>x. x) cs = sum_list (map amount cs)"
  unfolding charges_total_def foldl_plus by simp

lemma POST_accepts:
  assumes "valid_body body" and "stock_available d (items body)" and "validDate (billDate body)"
  shows "\<exists>b. fst (POST fl validDate money newBillId now (Some userId) body d) = BillCreated b \<and>
           bills (fst (snd (POST fl validDate money newBillId now (Some userId) body d)))
             = bills d @ [b] \<and>
           b_id b = newBillId \<and> b_userId b = userId \<and>
           b_taxRate b = taxRate_value (taxRate body) \<and>
           b_subtotal b = money (lines_total fl (items body)) \<and>
           b_extraChargesTotal b = money (charges_total fl (charges body)) \<and>
           b_tax b = money (fl (fl (lines_total fl (items body) * taxRate_value (taxRate body)) / 100)) \<and>
           b_total b =
             money (fl (fl (lines_total fl (items body)
                            + fl (fl (lines_total fl (items body) * taxRate_value (taxRate body)) / 100))
                        + charges_total fl (charges body)))"
  using validate_items_accepts[OF assms(2), where s = 0 and acc = "[]" and fl = fl] assms(3)
  by (simp add: POST_def parse_valid[OF assms(1)] Let_def exec_def store_bill_def
      lines_total_def charges_total_def charges_def)

subsection \<open>The header updates\<close>

lemma PUT_frame:
  "inventory (fst (snd (PUT validDate money now session billId body d))) = inventory d \<and>
   billItems (fst (snd (PUT validDate money now session billId body d))) = billItems d \<and>
   billExtraCharges (fst (snd (PUT validDate money now session billId body d))) = billExtraCharges d"
  by (simp add: PUT_def exec_def Let_def split: option.splits)

lemma PATCH_frame:
  "inventory (fst (snd (PATCH money now session billId body d))) = inventory d \<and>
   billItems (fst (snd (PATCH money now session billId body d))) = billItems d \<and>
   billExtraCharges (fst (snd (PATCH money now session billId body d))) = billExtraCharges d"
  by (simp add: PATCH_def exec_def Let_def split: option.splits)

lemma header_update_frame:
  "inventory (header_update validDate money d r) = inventory d \<and>
   billItems (header_update validDate money d r) = billItems d \<and>
   billExtraCharges (header_update validDate money d r) = billExtraCharges d"
  by (cases r) (simp_all add: PUT_frame PATCH_frame)

lemma PUT_money_columns:
  "map b_subtotal (bills (fst (snd (PUT validDate money now session billId body d))))
     = map b_subtotal (bills d) \<and>
   map b_tax (bills (fst (snd (PUT validDate money now session billId body d)))) = map b_tax (bills d) \<and>
   map b_extraChargesTotal (bills (fst (snd (PUT validDate money now session billId body d))))
     = map b_extraChargesTotal (bills d) \<and>
   map b_total (bills (fst (snd (PUT validDate money now session billId body d)))) = map b_total (bills d)"
  by (simp add: PUT_def exec_def Let_def updateData_def apply_set_def set_column_def o_def
      split: option.splits)

lemma find_map_keeps:
  "(\<And>x. P (f x) = P x) \<Longrightarrow> find P (map f xs) = map_option f (find P xs)"
  by (induction xs) auto

lemma apply_set_updateData_ids:
  "b_id (apply_set money (updateData now body) r) = b_id r"
  "b_userId (apply_set money (updateData now body) r) = b_userId r"
  by (simp_all add: apply_set_def updateData_def set_column_def)

lemma apply_set_updateData_columns:
  "b_subtotal (apply_set money (updateData now body) r) = b_subtotal r"
  "b_tax (apply_set money (updateData now body) r) = b_tax r"
  "b_extraChargesTotal (apply_set money (updateData now body) r) = b_extraChargesTotal r"
  "b_total (apply_set money (updateData now body) r) = b_total r"
  "b_taxRate (apply_set money (updateData now body) r)
     = (case put_taxRate body of TaxNumber t \<Rightarrow> t | _ \<Rightarrow> b_taxRate r)"
  by (simp_all add: apply_set_def updateData_def set_column_def split: put_taxRate.splits)

lemma put_date_ok_no_failure:
  "put_date_ok validDate body \<Longrightarrow>
   \<not> (case truthy (put_billDate body) of None \<Rightarrow> False | Some s \<Rightarrow> \<not> validDate s)"
  by (auto simp: put_date_ok_def truthy_def split: option.splits)

lemma PUT_stores:
  assumes "select_bill d billId userId = Some b" and "put_taxRate body \<noteq> TaxNull"
    and "put_date_ok validDate body"
  shows "PUT validDate money now (Some userId) billId body d
         = (BillUpdated (apply_set money (updateData now body) b),
            d\<lparr>bills := map (\<lambda>r. if b_id r = billId \<and> b_userId r = userId
                                 then apply_set money (updateData now body) r else r) (bills d)\<rparr>,
            [UpdateBill billId userId (updateData now body)])"
  using assms(1,2) put_date_ok_no_failure[OF assms(3)]
  by (simp add: PUT_def Let_def exec_def)

lemma select_bill_after_update:
  "select_bill
     (d\<lparr>bills := map (\<lambda>r. if b_id r = billId \<and> b_userId r = userId
                           then apply_set money (updateData now body) r else r) (bills d)\<rparr>) i u
   = map_option (\<lambda>r. if b_id r = billId \<and> b_userId r = userId
                      then apply_set money (updateData now body) r else r) (select_bill d i u)"
proof -
  define f where
    "f = (\<lambda>r :: bills_row. if b_id r = billId \<and> b_userId r = userId
                           then apply_set money (updateData now body) r else r)"
  have "find (\<lambda>b. b_id b = i \<and> b_userId b = u) (map f (bills d))
        = map_option f (find (\<lambda>b. b_id b = i \<and> b_userId b = u) (bills d))"
    by (rule find_map_keeps) (simp add: f_def apply_set_updateData_ids)
  then show ?thesis unfolding select_bill_def f_def by simp
qed

lemma select_bill_ids: "select_bill d i u = Some b \<Longrightarrow> b_id b = i \<and> b_userId b = u"
  by (auto simp: select_bill_def find_Some_iff)

subsection \<open>The loop that restores the inventory\<close>

lemma restore_inventory_frame [simp]:
  "bills (fst (restore_inventory fl money now its p)) = bills (fst p)"
  "billItems (fst (restore_inventory fl money now its p)) = billItems (fst p)"
  "billExtraCharges (fst (restore_inventory fl money now its p)) = billExtraCharges (fst p)"
  by (induction its arbitrary: p) (auto simp: exec_def Let_def split: option.splits)

lemma select_inventory_after_update:
  "select_inventory (apply_write money (UpdateInventory i q t) d) j
   = map_option (\<lambda>r. if inv_id r = i then r\<lparr>inv_availableQuantity := q, inv_updatedAt := t\<rparr> else r)
       (select_inventory d j)"
proof -
  define f where
    "f = (\<lambda>r :: inventory_row.
            if inv_id r = i then r\<lparr>inv_availableQuantity := q, inv_updatedAt := t\<rparr> else r)"
  have a: "inventory (apply_write money (UpdateInventory i q t) d) = map f (inventory d)"
    by (simp add: f_def)
  have b: "find (\<lambda>r. inv_id r = j) (map f (inventory d))
           = map_option f (find (\<lambda>r. inv_id r = j) (inventory d))"
    by (rule find_map_keeps) (simp add: f_def)
  show ?thesis using b unfolding select_inventory_def a f_def .
qed

lemma select_inventory_update:
  "select_inventory (apply_write money (UpdateInventory i q t) d) j = None
   \<longleftrightarrow> select_inventory d j = None"
  unfolding select_inventory_after_update by simp

lemma restore_inventory_writes:
  "\<exists>rel. snd (restore_inventory fl money now its p) = snd p @ rel \<and>
         map write_target rel
           = map Some (filter (\<lambda>i. select_inventory (fst p) i \<noteq> None) (map bi_inventoryId its))"
proof (induction its arbitrary: p)
  case Nil
  then show ?case by simp
next
  case (Cons item rest)
  show ?case
  proof (cases "select_inventory (fst p) (bi_inventoryId item)")
    case None
    with Cons.IH[of p] show ?thesis by simp
  next
    case (Some cur)
    let ?w = "UpdateInventory (bi_inventoryId item)
                (fl (inv_availableQuantity cur + bi_quantity item)) now"
    from Cons.IH[of "exec money ?w p"] obtain rel where
      rel: "snd (restore_inventory fl money now rest (exec money ?w p)) = snd (exec money ?w p) @ rel"
        "map write_target rel
          = map Some (filter (\<lambda>i. select_inventory (fst (exec money ?w p)) i \<noteq> None)
                        (map bi_inventoryId rest))"
      by blast
    have same: "\<And>i. (select_inventory (fst (exec money ?w p)) i \<noteq> None)
                   = (select_inventory (fst p) i \<noteq> None)"
      unfolding exec_def fst_conv select_inventory_update ..
    have "snd (restore_inventory fl money now (item # rest) p) = snd p @ (?w # rel)"
      using Some rel(1) by (simp add: Let_def exec_def)
    moreover have "map write_target (?w # rel)
        = map Some (filter (\<lambda>i. select_inventory (fst p) i \<noteq> None)
                      (map bi_inventoryId (item # rest)))"
      using Some rel(2)[unfolded same] by (simp add: write_target_def)
    ultimately show ?thesis by blast
  qed
qed

subsection \<open>What the loops do to one lot\<close>

lemma select_inventory_id: "select_inventory d j = Some r \<Longrightarrow> inv_id r = j"
  by (auto simp: select_inventory_def find_Some_iff)

lemma availableQuantity_of_update:
  "availableQuantity_of (apply_write money (UpdateInventory i q t) d) j
   = (if j = i then map_option (\<lambda>_. q) (availableQuantity_of d j) else availableQuantity_of d j)"
proof (cases "select_inventory d j")
  case None
  then show ?thesis unfolding availableQuantity_of_def select_inventory_after_update by auto
next
  case (Some r)
  with select_inventory_id[OF Some] show ?thesis
    unfolding availableQuantity_of_def select_inventory_after_update by auto
qed

lemma quantity_of_update:
  "quantity_of (apply_write money (UpdateInventory i q t) d) j = quantity_of d j"
proof (cases "select_inventory d j")
  case None
  then show ?thesis unfolding quantity_of_def select_inventory_after_update by simp
next
  case (Some r)
  then show ?thesis unfolding quantity_of_def select_inventory_after_update by simp
qed

lemma availableQuantity_of_restore:
  "availableQuantity_of (fst (restore_inventory fl money now its p)) j
   = map_option
       (\<lambda>a. foldl (\<lambda>a q. fl (a + q)) a
              (map bi_quantity (filter (\<lambda>l. bi_inventoryId l = j) its)))
       (availableQuantity_of (fst p) j)"
proof (induction its arbitrary: p)
  case Nil
  then show ?case by (simp add: option.map_ident)
next
  case (Cons item rest)
  show ?case
  proof (cases "select_inventory (fst p) (bi_inventoryId item)")
    case None
    then have "bi_inventoryId item = j \<Longrightarrow> availableQuantity_of (fst p) j = None"
      by (auto simp: availableQuantity_of_def)
    with None Cons.IH[of p] show ?thesis by (cases "bi_inventoryId item = j") simp_all
  next
    case (Some cur)
    let ?w = "UpdateInventory (bi_inventoryId item)
                (fl (inv_availableQuantity cur + bi_quantity item)) now"
    have cur: "bi_inventoryId item = j \<Longrightarrow>
               availableQuantity_of (fst p) j = Some (inv_availableQuantity cur)"
      using Some by (auto simp: availableQuantity_of_def)
    have step: "availableQuantity_of (fst (exec money ?w p)) j
       = (if j = bi_inventoryId item
          then map_option (\<lambda>_. fl (inv_availableQuantity cur + bi_quantity item))
                 (availableQuantity_of (fst p) j)
          else availableQuantity_of (fst p) j)"
      unfolding exec_def fst_conv availableQuantity_of_update ..
    have "restore_inventory fl money now (item # rest) p
          = restore_inventory fl money now rest (exec money ?w p)"
      using Some by (simp add: Let_def)
    with Cons.IH[of "exec money ?w p"] step cur show ?thesis
      by (cases "bi_inventoryId item = j") auto
  qed
qed

lemma quantity_of_restore:
  "quantity_of (fst (restore_inventory fl money now its p)) j = quantity_of (fst p) j"
proof (induction its arbitrary: p)
  case Nil
  then show ?case by simp
next
  case (Cons item rest)
  show ?case
  proof (cases "select_inventory (fst p) (bi_inventoryId item)")
    case None
    with Cons.IH[of p] show ?thesis by simp
  next
    case (Some cur)
    let ?w = "UpdateInventory (bi_inventoryId item)
                (fl (inv_availableQuantity cur + bi_quantity item)) now"
    have step: "quantity_of (fst (exec money ?w p)) j = quantity_of (fst p) j"
      unfolding exec_def fst_conv quantity_of_update ..
    have "restore_inventory fl money now (item # rest) p
          = restore_inventory fl money now rest (exec money ?w p)"
      using Some by (simp add: Let_def)
    with Cons.IH[of "exec money ?w p"] step show ?thesis by simp
  qed
qed

lemma availableQuantity_of_reduce:
  "availableQuantity_of (fst (reduce_inventory fl money now es p)) j
   = (if filter (\<lambda>e. d_inventoryId e = j) es = [] then availableQuantity_of (fst p) j
      else map_option
             (\<lambda>_. fl (inv_availableQuantity
                         (d_inventoryItem (last (filter (\<lambda>e. d_inventoryId e = j) es)))
                       - d_quantity (last (filter (\<lambda>e. d_inventoryId e = j) es))))
             (availableQuantity_of (fst p) j))"
proof (induction es arbitrary: p)
  case Nil
  then show ?case by simp
next
  case (Cons e es)
  let ?w = "UpdateInventory (d_inventoryId e)
              (fl (inv_availableQuantity (d_inventoryItem e) - d_quantity e)) now"
  have step: "availableQuantity_of (fst (exec money ?w p)) j
     = (if j = d_inventoryId e
        then map_option (\<lambda>_. fl (inv_availableQuantity (d_inventoryItem e) - d_quantity e))
               (availableQuantity_of (fst p) j)
        else availableQuantity_of (fst p) j)"
    unfolding exec_def fst_conv availableQuantity_of_update ..
  have "reduce_inventory fl money now (e # es) p = reduce_inventory fl money now es (exec money ?w p)"
    by (simp add: Let_def)
  with Cons.IH[of "exec money ?w p"] step show ?case
    by (cases "d_inventoryId e = j") (auto simp: option.map_comp o_def)
qed

lemma quantity_of_reduce:
  "quantity_of (fst (reduce_inventory fl money now es p)) j = quantity_of (fst p) j"
proof (induction es arbitrary: p)
  case Nil
  then show ?case by simp
next
  case (Cons e es)
  let ?w = "UpdateInventory (d_inventoryId e)
              (fl (inv_availableQuantity (d_inventoryItem e) - d_quantity e)) now"
  have step: "quantity_of (fst (exec money ?w p)) j = quantity_of (fst p) j"
    unfolding exec_def fst_conv quantity_of_update ..
  have "reduce_inventory fl money now (e # es) p = reduce_inventory fl money now es (exec money ?w p)"
    by (simp add: Let_def)
  with Cons.IH[of "exec money ?w p"] step show ?case by simp
qed

subsection \<open>The inventory after \<^verbatim>\<open>POST\<close> and after \<^verbatim>\<open>DELETE\<close>\<close>

lemma validate_items_Inr:
  "validate_items fl d its s acc = Inr (s', es) \<Longrightarrow>
   stock_available d its \<and> es = acc @ map (itemsData_of fl d) its"
proof (induction its arbitrary: s acc)
  case Nil
  then show ?case by (simp add: stock_available_def)
next
  case (Cons a its)
  from Cons.prems obtain r where r: "select_inventory d (inventoryId a) = Some r"
    by (cases "select_inventory d (inventoryId a)") auto
  with Cons.prems have ok: "\<not> inv_availableQuantity r < quantity a"
    by (auto simp: Let_def split: if_splits)
  with Cons.prems r have
    "validate_items fl d its (fl (s + fl (quantity a * sellingPrice a)))
       (acc @ [itemsData_of fl d a]) = Inr (s', es)"
    by (simp add: Let_def itemsData_of_def)
  from Cons.IH[OF this] r ok show ?case by (simp add: stock_available_def)
qed

lemma POST_unchanged_or_accepted:
  "fst (snd (POST fl validDate money newBillId now session body d)) = d \<or>
   (\<exists>userId. session = Some userId \<and> valid_body body \<and> stock_available d (items body) \<and>
              validDate (billDate body))"
proof (cases session)
  case None
  then show ?thesis by (simp add: POST_def)
next
  case (Some userId)
  show ?thesis
  proof (cases "extendedBillSchema_issues body")
    case (Cons e es)
    with Some show ?thesis by (simp add: POST_def extendedBillSchema_parse_def)
  next
    case Nil
    then have v: "valid_body body" by (simp add: valid_body_def)
    show ?thesis
    proof (cases "validate_items fl d (items body) 0 []")
      case (Inl resp)
      with Some show ?thesis by (simp add: POST_def parse_valid[OF v])
    next
      case (Inr res)
      then obtain s' es where r: "validate_items fl d (items body) 0 [] = Inr (s', es)"
        by (cases res) auto
      show ?thesis
      proof (cases "validDate (billDate body)")
        case True
        with validate_items_Inr[OF r] Some v show ?thesis by simp
      next
        case False
        with Some r show ?thesis by (simp add: POST_def parse_valid[OF v])
      qed
    qed
  qed
qed

lemma availableQuantity_of_cong:
  "inventory d1 = inventory d2 \<Longrightarrow> availableQuantity_of d1 j = availableQuantity_of d2 j"
  by (simp add: availableQuantity_of_def select_inventory_def)

lemma quantity_of_cong:
  "inventory d1 = inventory d2 \<Longrightarrow> quantity_of d1 j = quantity_of d2 j"
  by (simp add: quantity_of_def select_inventory_def)

lemma reduce_inventory_inventory_cong:
  "inventory (fst p) = inventory (fst q) \<Longrightarrow>
   inventory (fst (reduce_inventory fl money now es p))
   = inventory (fst (reduce_inventory fl money now es q))"
  by (induction es arbitrary: p q) (simp_all add: Let_def exec_def)

lemma POST_accepted_inventory:
  assumes "valid_body body" and "stock_available d (items body)" and "validDate (billDate body)"
  shows "inventory (fst (snd (POST fl validDate money newBillId now (Some userId) body d)))
         = inventory (fst (reduce_inventory fl money now (map (itemsData_of fl d) (items body)) (d, [])))"
  using validate_items_accepts[OF assms(2), where s = 0 and acc = "[]" and fl = fl] assms(3)
  by (auto simp: POST_def parse_valid[OF assms(1)] Let_def exec_def
      intro!: reduce_inventory_inventory_cong)

lemma POST_accepted_billItems:
  assumes "valid_body body" and "stock_available d (items body)" and "validDate (billDate body)"
  shows "billItems (fst (snd (POST fl validDate money newBillId now (Some userId) body d)))
         = billItems d @
           map (\<lambda>it. store_billItem money
                        \<lparr>bi_billId = newBillId, bi_inventoryId = inventoryId it,
                         bi_quantity = quantity it, bi_sellingPrice = sellingPrice it,
                         bi_total = fl (quantity it * sellingPrice it)\<rparr>) (items body)"
  using validate_items_accepts[OF assms(2), where s = 0 and acc = "[]" and fl = fl] assms(3)
  by (auto simp: POST_def parse_valid[OF assms(1)] Let_def exec_def itemsData_of_def o_def)

lemma POST_availableQuantity:
  assumes "valid_body body" and "stock_available d (items body)" and "validDate (billDate body)"
  shows "availableQuantity_of (fst (snd (POST fl validDate money newBillId now (Some userId) body d))) j
         = (if lines_on j (items body) = [] then availableQuantity_of d j
            else map_option (\<lambda>a. fl (a - quantity (last (lines_on j (items body)))))
                   (availableQuantity_of d j))"
proof -
  let ?es = "map (itemsData_of fl d) (items body)"
  have p: "availableQuantity_of (fst (snd (POST fl validDate money newBillId now (Some userId) body d))) j
           = availableQuantity_of (fst (reduce_inventory fl money now ?es (d, []))) j"
    by (rule availableQuantity_of_cong) (rule POST_accepted_inventory[where validDate = validDate, OF assms])
  have f: "filter (\<lambda>e. d_inventoryId e = j) ?es = map (itemsData_of fl d) (lines_on j (items body))"
    by (simp add: filter_map o_def itemsData_of_def lines_on_def)
  show ?thesis
  proof (cases "lines_on j (items body) = []")
    case True
    then show ?thesis unfolding p availableQuantity_of_reduce f by simp
  next
    case False
    then have "last (lines_on j (items body)) \<in> set (lines_on j (items body))" by simp
    then have j: "inventoryId (last (lines_on j (items body))) = j"
      by (simp add: lines_on_def)
    have "map_option (\<lambda>_. fl (inv_availableQuantity (the (select_inventory d j))
                              - quantity (last (lines_on j (items body)))))
            (availableQuantity_of d j)
          = map_option (\<lambda>a. fl (a - quantity (last (lines_on j (items body)))))
            (availableQuantity_of d j)"
      by (cases "select_inventory d j") (simp_all add: availableQuantity_of_def)
    with False j show ?thesis
      unfolding p availableQuantity_of_reduce f
      by (simp add: last_map itemsData_of_def)
  qed
qed

lemma POST_quantity_of:
  "quantity_of (fst (snd (POST fl validDate money newBillId now session body d))) j = quantity_of d j"
proof -
  from POST_unchanged_or_accepted[where fl = fl and validDate = validDate and money = money
      and newBillId = newBillId and now = now and session = session and body = body and d = d]
  consider "fst (snd (POST fl validDate money newBillId now session body d)) = d"
    | userId where "session = Some userId" "valid_body body" "stock_available d (items body)"
        "validDate (billDate body)"
    by blast
  then show ?thesis
  proof cases
    case 1
    then show ?thesis by simp
  next
    case 2
    have "quantity_of (fst (snd (POST fl validDate money newBillId now (Some userId) body d))) j
          = quantity_of (fst (reduce_inventory fl money now (map (itemsData_of fl d) (items body)) (d, []))) j"
      by (rule quantity_of_cong) (rule POST_accepted_inventory[where validDate = validDate, OF 2(2,3,4)])
    then show ?thesis unfolding 2(1) quantity_of_reduce by simp
  qed
qed

lemma DELETE_unchanged_or_deleted:
  "fst (snd (DELETE fl money now session billId d)) = d \<or>
   (\<exists>userId b. session = Some userId \<and> select_bill d billId userId = Some b)"
  by (auto simp: DELETE_def split: option.splits)

lemma DELETE_inventory:
  assumes "select_bill d billId userId = Some b"
  shows "inventory (fst (snd (DELETE fl money now (Some userId) billId d)))
         = inventory (fst (restore_inventory fl money now (bill_lines d billId) (d, [])))"
  using assms by (simp add: DELETE_def Let_def exec_def bill_lines_def)

lemma DELETE_availableQuantity:
  assumes "select_bill d billId userId = Some b"
  shows "availableQuantity_of (fst (snd (DELETE fl money now (Some userId) billId d))) j
         = map_option (released fl d billId j) (availableQuantity_of d j)"
proof -
  have "availableQuantity_of (fst (snd (DELETE fl money now (Some userId) billId d))) j
        = availableQuantity_of (fst (restore_inventory fl money now (bill_lines d billId) (d, []))) j"
    by (rule availableQuantity_of_cong) (rule DELETE_inventory[OF assms])
  moreover have "released fl d billId j
        = (\<lambda>a. foldl (\<lambda>a q. fl (a + q)) a
                 (map bi_quantity (filter (\<lambda>l. bi_inventoryId l = j) (bill_lines d billId))))"
    by (rule ext) (simp add: released_def)
  ultimately show ?thesis unfolding availableQuantity_of_restore by simp
qed

lemma DELETE_quantity_of:
  "quantity_of (fst (snd (DELETE fl money now session billId d))) j = quantity_of d j"
proof -
  from DELETE_unchanged_or_deleted[where fl = fl and money = money and now = now
      and session = session and billId = billId and d = d]
  consider "fst (snd (DELETE fl money now session billId d)) = d"
    | userId b where "session = Some userId" "select_bill d billId userId = Some b"
    by blast
  then show ?thesis
  proof cases
    case 1
    then show ?thesis by simp
  next
    case 2
    have "quantity_of (fst (snd (DELETE fl money now (Some userId) billId d))) j
          = quantity_of (fst (restore_inventory fl money now (bill_lines d billId) (d, []))) j"
      by (rule quantity_of_cong) (rule DELETE_inventory[OF 2(2)])
    then show ?thesis unfolding 2(1) quantity_of_restore by simp
  qed
qed

subsection \<open>From lot ids to rows\<close>

lemma reduce_inventory_ids:
  "map inv_id (inventory (fst (reduce_inventory fl money now es p))) = map inv_id (inventory (fst p))"
  by (induction es arbitrary: p) (simp_all add: Let_def exec_def o_def)

lemma restore_inventory_ids:
  "map inv_id (inventory (fst (restore_inventory fl money now its p))) = map inv_id (inventory (fst p))"
  by (induction its arbitrary: p) (simp_all add: Let_def exec_def o_def split: option.splits)

lemma POST_ids:
  "map inv_id (inventory (fst (snd (POST fl validDate money newBillId now session body d))))
   = map inv_id (inventory d)"
proof -
  from POST_unchanged_or_accepted[where fl = fl and validDate = validDate and money = money
      and newBillId = newBillId and now = now and session = session and body = body and d = d]
  consider "fst (snd (POST fl validDate money newBillId now session body d)) = d"
    | userId where "session = Some userId" "valid_body body" "stock_available d (items body)"
        "validDate (billDate body)"
    by blast
  then show ?thesis
  proof cases
    case 1
    then show ?thesis by simp
  next
    case 2
    show ?thesis unfolding 2(1) POST_accepted_inventory[where validDate = validDate, OF 2(2,3,4)] reduce_inventory_ids by simp
  qed
qed

lemma DELETE_ids:
  "map inv_id (inventory (fst (snd (DELETE fl money now session billId d))))
   = map inv_id (inventory d)"
proof -
  from DELETE_unchanged_or_deleted[where fl = fl and money = money and now = now
      and session = session and billId = billId and d = d]
  consider "fst (snd (DELETE fl money now session billId d)) = d"
    | userId b where "session = Some userId" "select_bill d billId userId = Some b"
    by blast
  then show ?thesis
  proof cases
    case 1
    then show ?thesis by simp
  next
    case 2
    show ?thesis unfolding 2(1) DELETE_inventory[OF 2(2)] restore_inventory_ids by simp
  qed
qed

lemma select_inventory_distinct:
  assumes "distinct (map inv_id (inventory d))" and "k < length (inventory d)"
  shows "select_inventory d (inv_id (inventory d ! k)) = Some (inventory d ! k)"
proof -
  from assms(1) have
    "\<forall>i<length (inventory d). \<forall>j<length (inventory d).
       i \<noteq> j \<longrightarrow> inv_id (inventory d ! i) \<noteq> inv_id (inventory d ! j)"
    by (simp add: distinct_conv_nth)
  with assms(2) have "\<And>j. j < k \<Longrightarrow> inv_id (inventory d ! j) \<noteq> inv_id (inventory d ! k)"
    by (metis less_trans nat_neq_iff)
  with assms(2) show ?thesis unfolding select_inventory_def find_Some_iff by blast
qed

text \<open>Rows of two inventories with the same distinct ids, compared through the lookups.\<close>

lemma rows_by_lookup:
  assumes "distinct (map inv_id (inventory d))"
    and "map inv_id (inventory d') = map inv_id (inventory d)"
    and "k < length (inventory d)"
  shows "availableQuantity_of d (inv_id (inventory d ! k)) = Some (inv_availableQuantity (inventory d ! k))"
    and "availableQuantity_of d' (inv_id (inventory d ! k)) = Some (inv_availableQuantity (inventory d' ! k))"
    and "quantity_of d (inv_id (inventory d ! k)) = Some (inv_quantity (inventory d ! k))"
    and "quantity_of d' (inv_id (inventory d ! k)) = Some (inv_quantity (inventory d' ! k))"
proof -
  from assms(2) have len: "length (inventory d') = length (inventory d)"
    by (metis length_map)
  from assms(2,3) len have id: "inv_id (inventory d' ! k) = inv_id (inventory d ! k)"
    by (metis nth_map)
  have d': "distinct (map inv_id (inventory d'))" using assms(1,2) by simp
  have k': "k < length (inventory d')" using assms(3) len by simp
  from select_inventory_distinct[OF assms(1,3)]
  show "availableQuantity_of d (inv_id (inventory d ! k)) = Some (inv_availableQuantity (inventory d ! k))"
    and "quantity_of d (inv_id (inventory d ! k)) = Some (inv_quantity (inventory d ! k))"
    by (simp_all add: availableQuantity_of_def quantity_of_def)
  from select_inventory_distinct[OF d' k'] id
  show "availableQuantity_of d' (inv_id (inventory d ! k)) = Some (inv_availableQuantity (inventory d' ! k))"
    and "quantity_of d' (inv_id (inventory d ! k)) = Some (inv_quantity (inventory d' ! k))"
    by (simp_all add: availableQuantity_of_def quantity_of_def)
qed

lemma valid_body_quantity:
  assumes "valid_body body" and "it \<in> set (items body)"
  shows "1 / 100 \<le> quantity it"
proof (rule ccontr)
  assume "\<not> 1 / 100 \<le> quantity it"
  then have "\<And>i. billingItemSchema i it \<noteq> []" by (simp add: billingItemSchema_def)
  from concat_enumerate_issue[OF assms(2), of billingItemSchema 0, OF this] assms(1)
  show False by (simp add: valid_body_def extendedBillSchema_issues_def)
qed

lemma stock_available_line:
  assumes "stock_available d its" and "it \<in> set its" and "select_inventory d (inventoryId it) = Some r"
  shows "quantity it \<le> inv_availableQuantity r"
  using assms by (auto simp: stock_available_def list_all_iff)

lemma rounding_nonneg: "rounding fl \<Longrightarrow> 0 \<le> x \<Longrightarrow> 0 \<le> fl x"
  unfolding rounding_def by metis

lemma rounding_mono: "rounding fl \<Longrightarrow> x \<le> y \<Longrightarrow> fl x \<le> fl y"
  unfolding rounding_def by blast

lemma POST_invariant:
  assumes "distinct (map inv_id (inventory d))" and "inventory_invariant d"
    and "rounding fl" and "holds_doubles fl d"
  shows "inventory_invariant (fst (snd (POST fl validDate money newBillId now session body d)))"
proof -
  let ?d' = "fst (snd (POST fl validDate money newBillId now session body d))"
  from POST_unchanged_or_accepted[where fl = fl and validDate = validDate and money = money
      and newBillId = newBillId and now = now and session = session and body = body and d = d]
  consider "?d' = d"
    | userId where "session = Some userId" "valid_body body" "stock_available d (items body)"
        "validDate (billDate body)"
    by blast
  then show ?thesis
  proof cases
    case 1
    with assms(2) show ?thesis by simp
  next
    case 2
    have ids: "map inv_id (inventory ?d') = map inv_id (inventory d)" by (rule POST_ids)
    then have len: "length (inventory ?d') = length (inventory d)" by (metis length_map)
    have "\<And>k. k < length (inventory ?d') \<Longrightarrow>
            0 \<le> inv_availableQuantity (inventory ?d' ! k) \<and>
            inv_availableQuantity (inventory ?d' ! k) \<le> inv_quantity (inventory ?d' ! k)"
    proof -
      fix k assume "k < length (inventory ?d')"
      with len have k: "k < length (inventory d)" by simp
      let ?r = "inventory d ! k" and ?r' = "inventory ?d' ! k"
      let ?j = "inv_id ?r"
      note L = rows_by_lookup[OF assms(1) ids k]
      from assms(2) k have inv: "0 \<le> inv_availableQuantity ?r"
        "inv_availableQuantity ?r \<le> inv_quantity ?r"
        by (simp_all add: inventory_invariant_def list_all_length)
      from assms(4) k have dbl: "fl (inv_availableQuantity ?r) = inv_availableQuantity ?r"
        by (simp add: holds_doubles_def list_all_length)
      from POST_quantity_of[where fl = fl and validDate = validDate and money = money
          and newBillId = newBillId and now = now and session = session and body = body
          and d = d and j = ?j] L(3,4)
      have q: "inv_quantity ?r' = inv_quantity ?r" by simp
      note A = POST_availableQuantity[where validDate = validDate, OF 2(2,3,4), where fl = fl and money = money
          and newBillId = newBillId and now = now and userId = userId and j = ?j]
      show "0 \<le> inv_availableQuantity ?r' \<and> inv_availableQuantity ?r' \<le> inv_quantity ?r'"
      proof (cases "lines_on ?j (items body) = []")
        case True
        with A L(1,2) 2(1)
        have "inv_availableQuantity ?r' = inv_availableQuantity ?r" by simp
        with inv q show ?thesis by simp
      next
        case False
        let ?it = "last (lines_on ?j (items body))"
        from False have "?it \<in> set (lines_on ?j (items body))" by simp
        then have it: "?it \<in> set (items body)" "inventoryId ?it = ?j"
          by (simp_all add: lines_on_def)
        from A L(1,2) 2(1) False
        have a: "inv_availableQuantity ?r' = fl (inv_availableQuantity ?r - quantity ?it)" by simp
        from select_inventory_distinct[OF assms(1) k] it(2)
        have "select_inventory d (inventoryId ?it) = Some ?r" by simp
        from stock_available_line[OF 2(3) it(1) this]
        have le: "quantity ?it \<le> inv_availableQuantity ?r" .
        from valid_body_quantity[OF 2(2) it(1)] have pos: "0 \<le> quantity ?it" by simp
        from le have "0 \<le> fl (inv_availableQuantity ?r - quantity ?it)"
          by (intro rounding_nonneg[OF assms(3)]) simp
        moreover from pos have "fl (inv_availableQuantity ?r - quantity ?it)
                                \<le> fl (inv_availableQuantity ?r)"
          by (intro rounding_mono[OF assms(3)]) simp
        ultimately show ?thesis using a inv q dbl by simp
      qed
    qed
    then show ?thesis by (simp add: inventory_invariant_def list_all_length)
  qed
qed

lemma DELETE_rows:
  assumes "distinct (map inv_id (inventory d))" and "select_bill d billId userId = Some b"
  shows "map inv_availableQuantity (inventory (fst (snd (DELETE fl money now (Some userId) billId d))))
         = map (\<lambda>r. released fl d billId (inv_id r) (inv_availableQuantity r)) (inventory d)"
    and "map inv_quantity (inventory (fst (snd (DELETE fl money now (Some userId) billId d))))
         = map inv_quantity (inventory d)"
proof -
  let ?d' = "fst (snd (DELETE fl money now (Some userId) billId d))"
  have ids: "map inv_id (inventory ?d') = map inv_id (inventory d)" by (rule DELETE_ids)
  then have len: "length (inventory ?d') = length (inventory d)" by (metis length_map)
  have row: "\<And>k. k < length (inventory d) \<Longrightarrow>
      inv_availableQuantity (inventory ?d' ! k)
        = released fl d billId (inv_id (inventory d ! k)) (inv_availableQuantity (inventory d ! k)) \<and>
      inv_quantity (inventory ?d' ! k) = inv_quantity (inventory d ! k)"
  proof -
    fix k assume k: "k < length (inventory d)"
    note L = rows_by_lookup[OF assms(1) ids k]
    from DELETE_availableQuantity[OF assms(2), where fl = fl and money = money and now = now
        and j = "inv_id (inventory d ! k)"] L(1,2)
      DELETE_quantity_of[where fl = fl and money = money and now = now
        and session = "Some userId" and billId = billId and d = d
        and j = "inv_id (inventory d ! k)"] L(3,4)
    show "inv_availableQuantity (inventory ?d' ! k)
        = released fl d billId (inv_id (inventory d ! k)) (inv_availableQuantity (inventory d ! k)) \<and>
      inv_quantity (inventory ?d' ! k) = inv_quantity (inventory d ! k)" by simp
  qed
  show "map inv_availableQuantity (inventory ?d')
         = map (\<lambda>r. released fl d billId (inv_id r) (inv_availableQuantity r)) (inventory d)"
    using len row by (intro nth_equalityI) simp_all
  show "map inv_quantity (inventory ?d') = map inv_quantity (inventory d)"
    using len row by (intro nth_equalityI) simp_all
qed

lemma release_nonneg:
  assumes "rounding fl"
  shows "list_all (\<lambda>q. 0 \<le> q) qs \<Longrightarrow> 0 \<le> a \<Longrightarrow> 0 \<le> foldl (\<lambda>a q. fl (a + q)) a qs"
proof (induction qs arbitrary: a)
  case Nil
  then show ?case by simp
next
  case (Cons q qs)
  from Cons.prems have "0 \<le> fl (a + q)" by (intro rounding_nonneg[OF assms]) simp
  with Cons.IH[of "fl (a + q)"] Cons.prems(1) show ?case by simp
qed

lemma released_nonneg:
  assumes "rounding fl" and "list_all (\<lambda>l. 0 \<le> bi_quantity l) (bill_lines d billId)" and "0 \<le> a"
  shows "0 \<le> released fl d billId i a"
  unfolding released_def
  by (rule release_nonneg[OF assms(1) _ assms(3)]) (use assms(2) in \<open>auto simp: list_all_iff\<close>)

subsection \<open>A bill created and deleted\<close>

lemma POST_accepted_bill_lines:
  assumes "valid_body body" and "stock_available d (items body)" and "validDate (billDate body)"
    and "bill_lines d newBillId = []"
  shows "released fl (fst (snd (POST fl validDate money newBillId now (Some userId) body d))) newBillId j a
         = foldl (\<lambda>a q. fl (a + q)) a (map quantity (lines_on j (items body)))"
proof -
  have "bill_lines (fst (snd (POST fl validDate money newBillId now (Some userId) body d))) newBillId
        = map (\<lambda>it. store_billItem money
                        \<lparr>bi_billId = newBillId, bi_inventoryId = inventoryId it,
                         bi_quantity = quantity it, bi_sellingPrice = sellingPrice it,
                         bi_total = fl (quantity it * sellingPrice it)\<rparr>) (items body)"
    using assms(4) unfolding bill_lines_def POST_accepted_billItems[where validDate = validDate, OF assms(1,2,3)]
    by (simp add: store_billItem_def)
  then show ?thesis
    by (simp add: released_def lines_on_def filter_map o_def store_billItem_def)
qed

lemma POST_accepted_select_bill:
  assumes "valid_body body" and "stock_available d (items body)" and "validDate (billDate body)"
  shows "\<exists>b. select_bill (fst (snd (POST fl validDate money newBillId now (Some userId) body d)))
               newBillId userId = Some b"
proof -
  from POST_accepts[where validDate = validDate, OF assms, where fl = fl and money = money and newBillId = newBillId
      and now = now and userId = userId] obtain b where
    b: "bills (fst (snd (POST fl validDate money newBillId now (Some userId) body d))) = bills d @ [b]"
       "b_id b = newBillId" "b_userId b = userId"
    by blast
  have "find (\<lambda>x. b_id x = newBillId \<and> b_userId x = userId) (bills d @ [b]) \<noteq> None"
    using b(2,3) by (auto simp: find_None_iff)
  then show ?thesis unfolding select_bill_def b(1) by auto
qed

text \<open>
  What a bill created and then deleted leaves of a lot: the last of the bill's lines on
  the lot is taken from what was available, and all of its lines on the lot are added
  back, every step rounded.
\<close>

lemma create_then_delete:
  assumes "valid_body body" and "stock_available d (items body)" and "validDate (billDate body)"
    and "bill_lines d newBillId = []"
  shows "availableQuantity_of
           (fst (snd (DELETE fl money now' (Some userId) newBillId
                        (fst (snd (POST fl validDate money newBillId now (Some userId) body d)))))) j
         = (if lines_on j (items body) = [] then availableQuantity_of d j
            else map_option
                   (\<lambda>a. foldl (\<lambda>a q. fl (a + q))
                          (fl (a - quantity (last (lines_on j (items body)))))
                          (map quantity (lines_on j (items body))))
                   (availableQuantity_of d j))"
proof -
  let ?d' = "fst (snd (POST fl validDate money newBillId now (Some userId) body d))"
  from POST_accepted_select_bill[where validDate = validDate, OF assms(1,2,3), where fl = fl and money = money
      and newBillId = newBillId and now = now and userId = userId] obtain b where
    "select_bill ?d' newBillId userId = Some b"
    by blast
  have rel: "released fl ?d' newBillId j
             = (\<lambda>a. foldl (\<lambda>a q. fl (a + q)) a (map quantity (lines_on j (items body))))"
    by (rule ext) (rule POST_accepted_bill_lines[where validDate = validDate, OF assms])
  from DELETE_availableQuantity[OF \<open>select_bill ?d' newBillId userId = Some b\<close>,
      where fl = fl and money = money and now = now' and j = j]
  have "availableQuantity_of (fst (snd (DELETE fl money now' (Some userId) newBillId ?d'))) j
        = map_option (\<lambda>a. foldl (\<lambda>a q. fl (a + q)) a (map quantity (lines_on j (items body))))
            (availableQuantity_of ?d' j)"
    unfolding rel .
  then show ?thesis
    unfolding POST_availableQuantity[where validDate = validDate, OF assms(1,2,3)]
    by (simp add: option.map_comp o_def option.map_ident)
qed

text \<open>
  In doubles the pair does not restore a lot even when the bill has one line on it:
  0.04 taken from 0.11 and added back leaves 0.11000000000000001.
\<close>

lemma create_then_delete_drift:
  "map inv_availableQuantity (inventory eleven_hundredths)
     = [7926335344172073 / 72057594037927936] \<and>
   map inv_availableQuantity
     (inventory (fst (snd (POST binary64 known_date id ''B1'' 1 (Some ''u'') four_hundredths
                             eleven_hundredths))))
     = [1261007895663739 / 18014398509481984] \<and>
   map inv_availableQuantity
     (inventory (fst (snd (DELETE binary64 id 2 (Some ''u'') ''B1''
                             (fst (snd (POST binary64 known_date id ''B1'' 1 (Some ''u'')
                                          four_hundredths eleven_hundredths)))))))
     = [3963167672086037 / 36028797018963968]"
  by (simp add: DELETE_def example_defs schema_defs handler_defs enumerate_eq_zip binary64_eval)

section \<open>The claims\<close>

text \<open>
  C1. A \<^verbatim>\<open>createBill\<close> request in which some line asks for more than its lot's
  \<open>availableQuantity\<close> is turned down, and the call leaves the database as it found it
  and issues no write: no lot's \<open>availableQuantity\<close> changes and no row of \<open>bills\<close>,
  \<open>billItems\<close> or \<open>billExtraCharges\<close> is written. The availability of every line is
  checked before the first write.
\<close>

theorem createBill_atomic:
  assumes "item \<in> set (items body)"
    and "select_inventory d (inventoryId item) = Some lot"
    and "inv_availableQuantity lot < quantity item"
  shows "\<exists>resp. POST fl validDate money newBillId now session body d = (resp, d, []) \<and> rejected resp"
proof (cases session)
  case None
  then show ?thesis by (simp add: POST_def rejected_def)
next
  case (Some userId)
  show ?thesis
  proof (cases "extendedBillSchema_parse body")
    case (Inl issues)
    with Some show ?thesis by (simp add: POST_def rejected_def)
  next
    case (Inr v)
    then have "v_items v = items body"
      by (auto simp: extendedBillSchema_parse_def split: list.splits)
    with validate_items_rejects[OF assms, where s = 0 and acc = "[]" and fl = fl]
    obtain e where "validate_items fl d (v_items v) 0 [] = Inl e" "rejected e" by auto
    with Some Inr show ?thesis by (simp add: POST_def)
  qed
qed

text \<open>
  Witness of C1. Three lines, of which only the third asks for more than its lot holds (5 of 1):
  the call answers with the insufficient-stock response and lots 1 and 2 are unchanged.
\<close>

theorem createBill_atomic_witness:
  "item_line ''L3'' 5 1 \<in> set (items three_lines) \<and>
   select_inventory three_lots (inventoryId (item_line ''L3'' 5 1)) = Some (lot_row ''L3'' 10 1) \<and>
   inv_availableQuantity (lot_row ''L3'' 10 1) < quantity (item_line ''L3'' 5 1) \<and>
   POST binary64 known_date id ''B1'' 1 (Some ''u'') three_lines three_lots
     = (InsufficientStock 1 5, three_lots, [])"
  using createBill_atomic[where item = "item_line ''L3'' 5 1" and body = three_lines
      and d = three_lots and lot = "lot_row ''L3'' 10 1" and fl = binary64
      and validDate = known_date and money = id and newBillId = "''B1''" and now = 1
      and session = "Some ''u''"]
  by (simp add: example_defs schema_defs handler_defs)

text \<open>
  C2, evaluated where the code departs from it. A bill with two lines on the same lot
  (2 and 3 of a lot with 10 available) is created: the last loop of \<^verbatim>\<open>POST\<close> computes
  each update from the row read before any update, so the second update overwrites the
  first and 7 remain available, not 5. Deleting the bill releases both items from the
  current row and leaves 12 available, not the 10 from before the pair. (What the pair
  leaves of a lot in general is \<open>create_then_delete\<close>; in doubles it can miss the
  value from before the pair on a single line too, \<open>create_then_delete_drift\<close>.)
\<close>

theorem createBill_deleteBill_same_lot_twice:
  "valid_body same_lot_twice \<and> stock_available one_lot (items same_lot_twice) \<and>
   map inv_availableQuantity (inventory one_lot) = [10] \<and>
   map inv_availableQuantity
     (inventory (fst (snd (POST binary64 known_date id ''B1'' 1 (Some ''u'') same_lot_twice one_lot))))
     = [7] \<and>
   map bi_quantity
     (billItems (fst (snd (POST binary64 known_date id ''B1'' 1 (Some ''u'') same_lot_twice one_lot))))
     = [2, 3] \<and>
   fst (DELETE binary64 id 2 (Some ''u'') ''B1''
          (fst (snd (POST binary64 known_date id ''B1'' 1 (Some ''u'') same_lot_twice one_lot))))
     = BillDeleted \<and>
   map inv_availableQuantity
     (inventory (fst (snd (DELETE binary64 id 2 (Some ''u'') ''B1''
                             (fst (snd (POST binary64 known_date id ''B1'' 1 (Some ''u'')
                                          same_lot_twice one_lot)))))))
     = [12]"
  by (simp add: valid_body_def stock_available_def DELETE_def example_defs schema_defs
      handler_defs enumerate_eq_zip binary64_eval)




text \<open>
  C4, as the code has it. An \<^verbatim>\<open>updateBillHeader\<close> call (\<^verbatim>\<open>PUT\<close>) never changes a
  row of \<open>billItems\<close>, \<open>billExtraCharges\<close> or \<open>inventory\<close>, and never changes the
  stored \<open>subtotal\<close>, \<open>tax\<close>, \<open>extraChargesTotal\<close> or \<open>total\<close> of any bill. A call
  that carries a numeric \<open>taxRate\<close> for an existing bill of the caller, and no date or
  one the engine parses, issues one update of \<open>bills\<close>: afterwards the \<open>taxRate\<close>
  column holds the new rate in the rows of that bill and what it held in every other
  row, and the bill the call returns is the row then stored, with its \<open>tax\<close> and
  \<open>total\<close> as they were: nothing is recomputed.
\<close>

theorem updateBillHeader_keeps_totals:
  "inventory (fst (snd (PUT validDate money now session billId body d))) = inventory d \<and>
   billItems (fst (snd (PUT validDate money now session billId body d))) = billItems d \<and>
   billExtraCharges (fst (snd (PUT validDate money now session billId body d))) = billExtraCharges d \<and>
   map b_subtotal (bills (fst (snd (PUT validDate money now session billId body d))))
     = map b_subtotal (bills d) \<and>
   map b_tax (bills (fst (snd (PUT validDate money now session billId body d)))) = map b_tax (bills d) \<and>
   map b_extraChargesTotal (bills (fst (snd (PUT validDate money now session billId body d))))
     = map b_extraChargesTotal (bills d) \<and>
   map b_total (bills (fst (snd (PUT validDate money now session billId body d)))) = map b_total (bills d) \<and>
   (session = Some userId \<and> select_bill d billId userId = Some b \<and>
    put_taxRate body = TaxNumber t \<and> put_date_ok validDate body
    \<longrightarrow> (\<exists>b' d'. PUT validDate money now session billId body d
                    = (BillUpdated b', d', [UpdateBill billId userId (updateData now body)]) \<and>
              select_bill d' billId userId = Some b' \<and>
              map b_taxRate (bills d')
                = map (\<lambda>r. if b_id r = billId \<and> b_userId r = userId then t else b_taxRate r)
                    (bills d) \<and>
              b_taxRate b' = t \<and> b_subtotal b' = b_subtotal b \<and> b_tax b' = b_tax b \<and>
              b_extraChargesTotal b' = b_extraChargesTotal b \<and> b_total b' = b_total b))"
proof -
  let ?f = "\<lambda>r. if b_id r = billId \<and> b_userId r = userId
                then apply_set money (updateData now body) r else r"
  let ?d' = "d\<lparr>bills := map ?f (bills d)\<rparr>"
  let ?b' = "apply_set money (updateData now body) b"
  have upd: "\<exists>b' d'. PUT validDate money now session billId body d
                    = (BillUpdated b', d', [UpdateBill billId userId (updateData now body)]) \<and>
              select_bill d' billId userId = Some b' \<and>
              map b_taxRate (bills d')
                = map (\<lambda>r. if b_id r = billId \<and> b_userId r = userId then t else b_taxRate r)
                    (bills d) \<and>
              b_taxRate b' = t \<and> b_subtotal b' = b_subtotal b \<and> b_tax b' = b_tax b \<and>
              b_extraChargesTotal b' = b_extraChargesTotal b \<and> b_total b' = b_total b"
    if s: "session = Some userId" and b: "select_bill d billId userId = Some b"
      and t: "put_taxRate body = TaxNumber t" and ok: "put_date_ok validDate body"
  proof -
    from t have "put_taxRate body \<noteq> TaxNull" by simp
    from PUT_stores[OF b this ok, where money = money and now = now]
    have P: "PUT validDate money now session billId body d
             = (BillUpdated ?b', ?d', [UpdateBill billId userId (updateData now body)])"
      unfolding s .
    have sel: "select_bill ?d' billId userId = Some ?b'"
      unfolding select_bill_after_update b using select_bill_ids[OF b] by simp
    have col: "map b_taxRate (bills ?d')
               = map (\<lambda>r. if b_id r = billId \<and> b_userId r = userId then t else b_taxRate r) (bills d)"
      by (simp add: apply_set_updateData_columns t o_def if_distrib cong: if_cong)
    have vals: "b_taxRate ?b' = t \<and> b_subtotal ?b' = b_subtotal b \<and> b_tax ?b' = b_tax b \<and>
                b_extraChargesTotal ?b' = b_extraChargesTotal b \<and> b_total ?b' = b_total b"
      by (simp add: apply_set_updateData_columns t)
    from P sel col vals show ?thesis by blast
  qed
  from PUT_frame[where validDate = validDate and money = money and now = now
      and session = session and billId = billId and body = body and d = d]
    PUT_money_columns[where validDate = validDate and money = money and now = now
      and session = session and billId = billId and body = body and d = d] upd
  show ?thesis by blast
qed

text \<open>Witness of C4. A bill at rate 10 with tax 10 and total 113 is set to rate 20.\<close>

theorem updateBillHeader_keeps_totals_witness:
  "select_bill (one_bill (one_bill_row 10 ''due'' 1)) ''B1'' ''u'' = Some (one_bill_row 10 ''due'' 1) \<and>
   put_date_ok known_date (put_only None (TaxNumber 20)) \<and>
   PUT known_date id 5 (Some ''u'') ''B1'' (put_only None (TaxNumber 20))
     (one_bill (one_bill_row 10 ''due'' 1))
   = (BillUpdated (one_bill_row 20 ''due'' 5), one_bill (one_bill_row 20 ''due'' 5),
      [UpdateBill ''B1'' ''u'' (updateData 5 (put_only None (TaxNumber 20)))]) \<and>
   select_bill (one_bill (one_bill_row 20 ''due'' 5)) ''B1'' ''u'' = Some (one_bill_row 20 ''due'' 5)"
  using updateBillHeader_keeps_totals[where validDate = known_date and money = id and now = 5
      and session = "Some ''u''" and billId = "''B1''" and body = "put_only None (TaxNumber 20)"
      and d = "one_bill (one_bill_row 10 ''due'' 1)" and userId = "''u''"
      and b = "one_bill_row 10 ''due'' 1" and t = 20]
  by (simp add: header_defs put_date_ok_def example_defs handler_defs)

text \<open>
  C4 as stated fails on that call: the stored rate is 20 and the subtotal 100, but the
  stored tax is still 10 (not 20) and the stored total still 113 (not 123).
\<close>

theorem updateBillHeader_counterexample:
  "PUT known_date id 5 (Some ''u'') ''B1'' (put_only None (TaxNumber 20))
     (one_bill (one_bill_row 10 ''due'' 1))
   = (BillUpdated (one_bill_row 20 ''due'' 5), one_bill (one_bill_row 20 ''due'' 5),
      [UpdateBill ''B1'' ''u'' (updateData 5 (put_only None (TaxNumber 20)))]) \<and>
   b_taxRate (one_bill_row 20 ''due'' 5) = 20 \<and> b_subtotal (one_bill_row 20 ''due'' 5) = 100 \<and>
   b_tax (one_bill_row 20 ''due'' 5) = 10 \<and> b_total (one_bill_row 20 ''due'' 5) = 113 \<and>
   b_extraChargesTotal (one_bill_row 20 ''due'' 5) = 3 \<and>
   b_tax (one_bill_row 20 ''due'' 5)
     \<noteq> b_subtotal (one_bill_row 20 ''due'' 5) * b_taxRate (one_bill_row 20 ''due'' 5) / 100 \<and>
   b_total (one_bill_row 20 ''due'' 5)
     \<noteq> b_subtotal (one_bill_row 20 ''due'' 5)
        + b_subtotal (one_bill_row 20 ''due'' 5) * b_taxRate (one_bill_row 20 ''due'' 5) / 100
        + b_extraChargesTotal (one_bill_row 20 ''due'' 5)"
  by (simp add: header_defs example_defs handler_defs)

text \<open>
  C5, as the code has it. A \<^verbatim>\<open>deleteBill\<close> call for an existing bill of the caller
  always succeeds. It issues one release (an update of \<open>inventory\<close>) for every item
  of the bill whose lot exists, in the order of the items, and none for an item whose
  lot no longer exists: such an item is skipped silently. The releases add to what is
  available in a lot the quantities of the bill's items on that lot, one after the
  other in doubles (\<open>released\<close>), and leave the lot's \<open>quantity\<close> alone. After the
  releases the call deletes the rows of \<open>billItems\<close>, then those of
  \<open>billExtraCharges\<close>, then the bill, and no row of the bill remains.
\<close>

theorem deleteBill_skips_missing_lots:
  assumes "select_bill d billId userId = Some b"
  shows "\<exists>d' rel. DELETE fl money now (Some userId) billId d
             = (BillDeleted, d',
                rel @ [DeleteBillItems billId, DeleteBillExtraCharges billId,
                       DeleteBill billId userId]) \<and>
           map write_target rel
             = map Some (filter (\<lambda>i. select_inventory d i \<noteq> None)
                           (map bi_inventoryId (bill_lines d billId))) \<and>
           (\<forall>j. availableQuantity_of d' j
                  = map_option (released fl d billId j) (availableQuantity_of d j)) \<and>
           (\<forall>j. quantity_of d' j = quantity_of d j) \<and>
           bill_lines d' billId = [] \<and>
           filter (\<lambda>r. ec_billId r = billId) (billExtraCharges d') = [] \<and>
           select_bill d' billId userId = None"
proof -
  let ?p1 = "restore_inventory fl money now (bill_lines d billId) (d, [])"
  let ?d' = "apply_write money (DeleteBill billId userId)
               (apply_write money (DeleteBillExtraCharges billId)
                 (apply_write money (DeleteBillItems billId) (fst ?p1)))"
  from restore_inventory_writes[where fl = fl and money = money and now = now
      and its = "bill_lines d billId" and p = "(d, [])"]
  obtain rel where rel: "snd ?p1 = rel"
    "map write_target rel
       = map Some (filter (\<lambda>i. select_inventory d i \<noteq> None) (map bi_inventoryId (bill_lines d billId)))"
    by auto
  have D: "DELETE fl money now (Some userId) billId d
        = (BillDeleted, ?d',
           rel @ [DeleteBillItems billId, DeleteBillExtraCharges billId, DeleteBill billId userId])"
    using assms rel(1) by (simp add: DELETE_def Let_def exec_def bill_lines_def)
  have a: "\<forall>j. availableQuantity_of ?d' j
                = map_option (released fl d billId j) (availableQuantity_of d j)"
    using DELETE_availableQuantity[OF assms, where fl = fl and money = money and now = now]
    unfolding D by simp
  have q: "\<forall>j. quantity_of ?d' j = quantity_of d j"
    using DELETE_quantity_of[where fl = fl and money = money and now = now
        and session = "Some userId" and billId = billId and d = d]
    unfolding D by simp
  have "bill_lines ?d' billId = []"
    by (simp add: bill_lines_def)
  moreover have "filter (\<lambda>r. ec_billId r = billId) (billExtraCharges ?d') = []"
    by simp
  moreover have "select_bill ?d' billId userId = None"
    by (simp add: select_bill_def find_None_iff)
  ultimately show ?thesis using D rel(2) a q by blast
qed

text \<open>
  Witness of C5. A bill with one item on an existing lot (2 of \<open>L1\<close>, which has 5
  available) and one on a lot that is gone: 7 are available in \<open>L1\<close> afterwards.
\<close>

theorem deleteBill_skips_missing_lots_witness:
  "select_bill vanished_lot ''B1'' ''u'' = Some (one_bill_row 10 ''due'' 1) \<and>
   DELETE binary64 id 9 (Some ''u'') ''B1'' vanished_lot
   = (BillDeleted, after_delete,
      [UpdateInventory ''L1'' 7 9] @
      [DeleteBillItems ''B1'', DeleteBillExtraCharges ''B1'', DeleteBill ''B1'' ''u'']) \<and>
   availableQuantity_of vanished_lot ''L1'' = Some 5 \<and>
   released binary64 vanished_lot ''B1'' ''L1'' 5 = 7 \<and>
   availableQuantity_of after_delete ''L1'' = Some 7"
  using deleteBill_skips_missing_lots[where d = vanished_lot and billId = "''B1''"
      and userId = "''u''" and b = "one_bill_row 10 ''due'' 1" and fl = binary64 and money = id
      and now = 9]
  by (simp add: DELETE_def availableQuantity_of_def released_def bill_lines_def example_defs
      handler_defs binary64_eval)

text \<open>
  C5 as stated fails on that bill: the second item's lot does not exist, yet the call
  answers with success instead of a consistency error, lot \<open>L1\<close> goes from 5 to 7,
  and the bill, its items and its extra charges are deleted.
\<close>

theorem deleteBill_counterexample:
  "select_inventory vanished_lot ''LX'' = None \<and>
   bi_inventoryId (bill_lines vanished_lot ''B1'' ! 1) = ''LX'' \<and>
   DELETE binary64 id 9 (Some ''u'') ''B1'' vanished_lot
   = (BillDeleted, after_delete,
      [UpdateInventory ''L1'' 7 9, DeleteBillItems ''B1'', DeleteBillExtraCharges ''B1'',
       DeleteBill ''B1'' ''u'']) \<and>
   map inv_availableQuantity (inventory vanished_lot) = [5] \<and>
   map inv_availableQuantity (inventory after_delete) = [7] \<and>
   bills after_delete = [] \<and> billItems after_delete = [] \<and> billExtraCharges after_delete = []"
  by (simp add: DELETE_def bill_lines_def example_defs handler_defs binary64_eval)

text \<open>
  C6, as the code has it. With lot ids unique, \<open>0 \<le> availableQuantity \<le> quantity\<close>
  in every row of the inventory is kept by \<^verbatim>\<open>createBill\<close> and by \<^verbatim>\<open>updateBillHeader\<close>,
  the rounding of doubles being monotone and keeping 0 and the doubles of the rows.
  The release of \<^verbatim>\<open>deleteBill\<close> is not clamped: deleting an existing bill adds to
  every lot's \<open>availableQuantity\<close> the quantities of the bill's items on that lot, one
  after the other and each sum rounded to a double (\<open>released\<close>), and leaves
  \<open>quantity\<close> alone, so \<open>0 \<le> availableQuantity\<close> is kept when the items' quantities
  are not negative, and \<open>availableQuantity \<le> quantity\<close> is kept only when the released
  quantities fit.
\<close>

theorem settlement_invariant:
  assumes "distinct (map inv_id (inventory d))" and "inventory_invariant d"
    and "rounding fl" and "holds_doubles fl d"
  shows "inventory_invariant (fst (snd (POST fl validDate money newBillId now session body d))) \<and>
         inventory_invariant (fst (snd (PUT validDate money now session billId header d))) \<and>
         (select_bill d billId userId = Some b \<longrightarrow>
            map inv_availableQuantity (inventory (fst (snd (DELETE fl money now (Some userId) billId d))))
              = map (\<lambda>r. released fl d billId (inv_id r) (inv_availableQuantity r)) (inventory d) \<and>
            map inv_quantity (inventory (fst (snd (DELETE fl money now (Some userId) billId d))))
              = map inv_quantity (inventory d)) \<and>
         (list_all (\<lambda>l. 0 \<le> bi_quantity l) (bill_lines d billId) \<longrightarrow>
            list_all (\<lambda>r. 0 \<le> inv_availableQuantity r)
              (inventory (fst (snd (DELETE fl money now session billId d)))))"
proof (intro conjI impI)
  show "inventory_invariant (fst (snd (POST fl validDate money newBillId now session body d)))"
    by (rule POST_invariant[OF assms])
  show "inventory_invariant (fst (snd (PUT validDate money now session billId header d)))"
    using assms(2) PUT_frame[where validDate = validDate and money = money and now = now
        and session = session and billId = billId and body = header and d = d]
    by (simp add: inventory_invariant_def)
next
  assume "select_bill d billId userId = Some b"
  from DELETE_rows[OF assms(1) this, where fl = fl and money = money and now = now]
  show "map inv_availableQuantity (inventory (fst (snd (DELETE fl money now (Some userId) billId d))))
          = map (\<lambda>r. released fl d billId (inv_id r) (inv_availableQuantity r)) (inventory d)"
    and "map inv_quantity (inventory (fst (snd (DELETE fl money now (Some userId) billId d))))
          = map inv_quantity (inventory d)"
    by simp_all
next
  assume nonneg: "list_all (\<lambda>l. 0 \<le> bi_quantity l) (bill_lines d billId)"
  have before: "list_all (\<lambda>r. 0 \<le> inv_availableQuantity r) (inventory d)"
    using assms(2) by (simp add: inventory_invariant_def list_all_iff)
  from DELETE_unchanged_or_deleted[where fl = fl and money = money and now = now
      and session = session and billId = billId and d = d]
  consider "fst (snd (DELETE fl money now session billId d)) = d"
    | u b' where "session = Some u" "select_bill d billId u = Some b'"
    by blast
  then show "list_all (\<lambda>r. 0 \<le> inv_availableQuantity r)
               (inventory (fst (snd (DELETE fl money now session billId d))))"
  proof cases
    case 1
    with before show ?thesis by simp
  next
    case 2
    have "list_all (\<lambda>a. 0 \<le> a)
            (map (\<lambda>r. released fl d billId (inv_id r) (inv_availableQuantity r)) (inventory d))"
      using before released_nonneg[OF assms(3) nonneg] by (simp add: list_all_iff)
    then have "list_all (\<lambda>a. 0 \<le> a)
            (map inv_availableQuantity (inventory (fst (snd (DELETE fl money now session billId d)))))"
      unfolding 2(1) DELETE_rows(1)[OF assms(1) 2(2)] .
    then show ?thesis by (simp add: list_all_iff)
  qed
qed

text \<open>
  Witness of C6. A lot of 10 with 8 available and a bill holding 2 of it: creating a bill for 3 more
  leaves 5, deleting the first bill leaves 10.
\<close>

theorem settlement_invariant_witness:
  "distinct (map inv_id (inventory (one_bill (one_bill_row 10 ''due'' 1)))) \<and>
   inventory_invariant (one_bill (one_bill_row 10 ''due'' 1)) \<and>
   rounding binary64 \<and> holds_doubles binary64 (one_bill (one_bill_row 10 ''due'' 1)) \<and>
   map inv_availableQuantity (inventory (one_bill (one_bill_row 10 ''due'' 1))) = [8] \<and>
   map inv_availableQuantity
     (inventory (fst (snd (POST binary64 known_date id ''B2'' 5 (Some ''u'') three_of_lot
                             (one_bill (one_bill_row 10 ''due'' 1))))))
     = [5] \<and>
   select_bill (one_bill (one_bill_row 10 ''due'' 1)) ''B1'' ''u'' = Some (one_bill_row 10 ''due'' 1) \<and>
   released binary64 (one_bill (one_bill_row 10 ''due'' 1)) ''B1'' ''L1'' 8 = 10 \<and>
   map inv_availableQuantity
     (inventory (fst (snd (DELETE binary64 id 5 (Some ''u'') ''B1''
                             (one_bill (one_bill_row 10 ''due'' 1))))))
     = [10]"
  using settlement_invariant[where d = "one_bill (one_bill_row 10 ''due'' 1)" and fl = binary64
      and validDate = known_date and money = id and newBillId = "''B2''" and now = 5
      and session = "Some ''u''" and body = three_of_lot and billId = "''B1''"
      and header = "put_only None (TaxNumber 20)" and userId = "''u''"
      and b = "one_bill_row 10 ''due'' 1"] rounding_binary64
  by (simp add: inventory_invariant_def holds_doubles_def released_def bill_lines_def DELETE_def
      example_defs schema_defs handler_defs enumerate_eq_zip binary64_eval)

text \<open>
  C6 as stated fails. A lot of 10 with 9 available and a bill holding 2 of it satisfies
  the invariant; deleting the bill makes 11 available of 10, unclamped. The handlers
  reach such a state on their own: on a lot of 10, all available, a bill with two lines
  on that lot (2 and 3) is created, which keeps the invariant, and deleted, which
  breaks it.
\<close>

theorem settlement_invariant_counterexample:
  "inventory_invariant nine_of_ten \<and>
   fst (DELETE binary64 id 5 (Some ''u'') ''B1'' nine_of_ten) = BillDeleted \<and>
   map inv_availableQuantity
     (inventory (fst (snd (DELETE binary64 id 5 (Some ''u'') ''B1'' nine_of_ten)))) = [11] \<and>
   map inv_quantity
     (inventory (fst (snd (DELETE binary64 id 5 (Some ''u'') ''B1'' nine_of_ten)))) = [10] \<and>
   \<not> inventory_invariant (fst (snd (DELETE binary64 id 5 (Some ''u'') ''B1'' nine_of_ten))) \<and>
   inventory_invariant one_lot \<and>
   inventory_invariant
     (fst (snd (POST binary64 known_date id ''B1'' 1 (Some ''u'') same_lot_twice one_lot))) \<and>
   \<not> inventory_invariant
       (fst (snd (DELETE binary64 id 2 (Some ''u'') ''B1''
                    (fst (snd (POST binary64 known_date id ''B1'' 1 (Some ''u'')
                                 same_lot_twice one_lot))))))"
  by (simp add: inventory_invariant_def DELETE_def example_defs schema_defs handler_defs
      enumerate_eq_zip binary64_eval)

text \<open>
  C7, as the code has it. For a valid \<^verbatim>\<open>createBill\<close> request in which every line before
  the first offending one names an existing lot, the call turns the whole bill down with
  the insufficient-stock response of the first line, in the caller's order, whose
  quantity exceeds its lot's \<open>availableQuantity\<close>; the response carries the available
  and the requested amount of that line, and nothing is written. The response does not
  name the lot.
\<close>

theorem createBill_first_offender:
  assumes "valid_body body" and "items body = pre @ bad # post" and "stock_available d pre"
    and "select_inventory d (inventoryId bad) = Some lot"
    and "inv_availableQuantity lot < quantity bad"
  shows "POST fl validDate money newBillId now (Some userId) body d
         = (InsufficientStock (inv_availableQuantity lot) (quantity bad), d, [])"
  using validate_items_first_offender[OF assms(3,4,5), where post = post and s = 0
      and acc = "[]" and fl = fl] assms(2)
  by (simp add: POST_def parse_valid[OF assms(1)])

text \<open>
  Witness of C7. Three lines, the second and the third beyond their lots: the response reports the
  second (1 available, 5 requested), not the third (8 available, 9 requested).
\<close>

theorem createBill_first_offender_witness:
  "valid_body (short_of ''L1'') \<and>
   items (short_of ''L1'') = [item_line ''L3'' 2 10] @ item_line ''L1'' 5 1 # [item_line ''L3'' 9 1] \<and>
   stock_available twin_lots [item_line ''L3'' 2 10] \<and>
   select_inventory twin_lots (inventoryId (item_line ''L1'' 5 1)) = Some (lot_row ''L1'' 10 1) \<and>
   POST binary64 known_date id ''B1'' 1 (Some ''u'') (short_of ''L1'') twin_lots
     = (InsufficientStock 1 5, twin_lots, [])"
  using createBill_first_offender[where body = "short_of ''L1''" and pre = "[item_line ''L3'' 2 10]"
      and bad = "item_line ''L1'' 5 1" and post = "[item_line ''L3'' 9 1]" and d = twin_lots
      and lot = "lot_row ''L1'' 10 1" and fl = binary64 and validDate = known_date and money = id
      and newBillId = "''B1''" and now = 1 and userId = "''u''"]
  by (simp add: valid_body_def stock_available_def example_defs schema_defs handler_defs
      enumerate_eq_zip)

text \<open>
  C7 as stated fails twice. Two requests whose first offending lines name different lots
  (\<open>L1\<close> and \<open>L2\<close>) receive the same response, so the response does not carry the
  offending lot's id. And a request whose first line names an unknown lot is answered
  with the not-found response of that line, although its second line exceeds its lot.
\<close>

theorem createBill_first_offender_counterexample:
  "POST binary64 known_date id ''B1'' 1 (Some ''u'') (short_of ''L1'') twin_lots
     = (InsufficientStock 1 5, twin_lots, []) \<and>
   POST binary64 known_date id ''B1'' 1 (Some ''u'') (short_of ''L2'') twin_lots
     = (InsufficientStock 1 5, twin_lots, []) \<and>
   map inventoryId (items (short_of ''L1'')) \<noteq> map inventoryId (items (short_of ''L2'')) \<and>
   POST binary64 known_date id ''B1'' 1 (Some ''u'') unknown_lot_first twin_lots
     = (InventoryNotFound ''LX'', twin_lots, [])"
  by (simp add: example_defs schema_defs handler_defs enumerate_eq_zip)

text \<open>
  C8. Whatever sequence of header updates runs (\<^verbatim>\<open>PUT\<close> and \<^verbatim>\<open>PATCH\<close> requests,
  with any bodies, so in particular status updates from due to paid and back, in any
  order and number), the \<open>inventory\<close> table, and with it every lot's
  \<open>availableQuantity\<close>, is unchanged, and so are the rows of \<open>billItems\<close> and
  \<open>billExtraCharges\<close>.
\<close>

theorem status_updates_frame:
  "inventory (header_updates validDate money rs d) = inventory d \<and>
   billItems (header_updates validDate money rs d) = billItems d \<and>
   billExtraCharges (header_updates validDate money rs d) = billExtraCharges d"
  unfolding header_updates_def
  by (induction rs arbitrary: d) (simp_all add: header_update_frame)

text \<open>
  Witness of C8. A bill marked paid, then due, then paid again: only its status and timestamp change.
\<close>

theorem status_updates_frame_witness:
  "header_updates known_date id
     [PatchRequest 5 (Some ''u'') ''B1'' (patch_status ''paid''),
      PatchRequest 6 (Some ''u'') ''B1'' (patch_status ''due''),
      PutRequest 7 (Some ''u'') ''B1'' (put_only (Some ''paid'') TaxAbsent)]
     (one_bill (one_bill_row 10 ''due'' 1))
   = one_bill (one_bill_row 10 ''paid'' 7) \<and>
   inventory (one_bill (one_bill_row 10 ''paid'' 7)) = inventory (one_bill (one_bill_row 10 ''due'' 1)) \<and>
   billItems (one_bill (one_bill_row 10 ''paid'' 7)) = billItems (one_bill (one_bill_row 10 ''due'' 1))"
  using status_updates_frame[where validDate = known_date and money = id
      and rs = "[PatchRequest 5 (Some ''u'') ''B1'' (patch_status ''paid''),
      PatchRequest 6 (Some ''u'') ''B1'' (patch_status ''due''),
      PutRequest 7 (Some ''u'') ''B1'' (put_only (Some ''paid'') TaxAbsent)]"
      and d = "one_bill (one_bill_row 10 ''due'' 1)"]
  by (simp add: header_updates_def header_defs example_defs handler_defs)

text \<open>
  C9. A \<^verbatim>\<open>createBill\<close> request of an authenticated caller whose list of items is empty,
  or which has a line with \<open>quantity \<le> 0\<close> or with \<open>sellingPrice < 0\<close>, or whose
  \<open>taxRate\<close> is a number outside \<open>[0, 100]\<close>, is answered with the validation error
  (status 400, \<^verbatim>\<open>Invalid request data\<close>, at least one issue), the database is left as
  it was and no write is issued.
\<close>

theorem createBill_validation:
  assumes "items body = [] \<or> (\<exists>it\<in>set (items body). quantity it \<le> 0) \<or>
           (\<exists>it\<in>set (items body). sellingPrice it < 0) \<or>
           (\<exists>t. taxRate body = Num t \<and> (t < 0 \<or> 100 < t))"
  shows "\<exists>issues. issues \<noteq> [] \<and>
           POST fl validDate money newBillId now (Some userId) body d
             = (InvalidRequestData issues, d, [])"
proof -
  from malformed_issues[OF assms] obtain e es where "extendedBillSchema_issues body = e # es"
    by (cases "extendedBillSchema_issues body") auto
  then show ?thesis by (simp add: POST_def extendedBillSchema_parse_def)
qed

text \<open>
  Witness of C9. One request for each of the four defects, with the field each response
  names.
\<close>

theorem createBill_validation_witness:
  "items no_lines = [] \<and>
   POST binary64 known_date id ''B1'' 1 (Some ''u'') no_lines three_lots
     = (InvalidRequestData [[Key ''items'']], three_lots, []) \<and>
   POST binary64 known_date id ''B1'' 1 (Some ''u'') zero_quantity three_lots
     = (InvalidRequestData [[Key ''items'', Index 1, Key ''quantity'']], three_lots, []) \<and>
   POST binary64 known_date id ''B1'' 1 (Some ''u'') negative_price three_lots
     = (InvalidRequestData [[Key ''items'', Index 0, Key ''sellingPrice'']], three_lots, []) \<and>
   POST binary64 known_date id ''B1'' 1 (Some ''u'') tax_out_of_range three_lots
     = (InvalidRequestData [[Key ''taxRate'']], three_lots, [])"
  using createBill_validation[where body = no_lines and fl = binary64 and validDate = known_date
      and money = id and newBillId = "''B1''" and now = 1 and userId = "''u''" and d = three_lots]
  by (simp add: example_defs schema_defs handler_defs enumerate_eq_zip)



end
